theory Spec2Isabelle
  imports Main "HOL-Library.Sublist"
begin

section \<open>Python values used by AppleNotesExport.py\<close>

text \<open>
  A Python \<open>str\<close> is a sequence of Unicode code points; slicing, \<open>len\<close> and
  \<open>strip\<close> count code points, and the source mentions U+FFFC. A string is therefore
  a list of code points, and an ASCII literal of the source is written \<open>ascii ''...''\<close>.
  A \<open>bytes\<close> value is a list of 8-bit characters.
\<close>

type_synonym pystr = "nat list"

type_synonym bytes = "char list"

abbreviation ascii :: "string \<Rightarrow> pystr" where
  "ascii s \<equiv> map of_char s"

text \<open>
  \<open>s[a:b]\<close> for integers \<open>a\<close>, \<open>b\<close>: a negative index counts from the end, every
  index is clamped to \<open>0 .. len(s)\<close>, and the slice is empty when the bounds cross.
\<close>

definition py_index :: "nat \<Rightarrow> int \<Rightarrow> nat" where
  "py_index n i = (if i < 0 then nat (max (i + int n) 0) else min (nat i) n)"

definition py_slice :: "'a list \<Rightarrow> int \<Rightarrow> int \<Rightarrow> 'a list" where
  "py_slice s a b =
     (let lo = py_index (length s) a; hi = py_index (length s) b
      in take (hi - lo) (drop lo s))"

text \<open>\<open>str.isspace\<close> on one code point: the white-space characters of CPython.\<close>

definition py_isspace :: "nat \<Rightarrow> bool" where
  "py_isspace c =
     ((9 \<le> c \<and> c \<le> 13) \<or> (28 \<le> c \<and> c \<le> 32) \<or> c = 133 \<or> c = 160 \<or> c = 5760
      \<or> (8192 \<le> c \<and> c \<le> 8202) \<or> c = 8232 \<or> c = 8233 \<or> c = 8239 \<or> c = 8287
      \<or> c = 12288)"

definition py_strip :: "pystr \<Rightarrow> pystr" where
  "py_strip s = rev (dropWhile py_isspace (rev (dropWhile py_isspace s)))"

text \<open>\<open>s.replace(c, '')\<close> for a one-character string \<open>c\<close>.\<close>

definition py_remove :: "nat \<Rightarrow> pystr \<Rightarrow> pystr" where
  "py_remove c s = filter (\<lambda>x. x \<noteq> c) s"

text \<open>The object replacement character U+FFFC.\<close>

definition OBJ_REPLACEMENT :: nat where
  "OBJ_REPLACEMENT = 65532"

text \<open>\<open>sub in s\<close> for strings: \<open>sub\<close> occurs in \<open>s\<close> as a contiguous run.\<close>

fun py_in :: "pystr \<Rightarrow> pystr \<Rightarrow> bool" where
  "py_in sub [] = (sub = [])"
| "py_in sub (c # cs) = (prefix sub (c # cs) \<or> py_in sub cs)"

text \<open>\<open>str(n)\<close> for an integer: decimal digits, with a minus sign when negative.\<close>

function digits :: "nat \<Rightarrow> pystr" where
  "digits n = (if n < 10 then [48 + n] else digits (n div 10) @ [48 + n mod 10])"
  by pat_completeness auto
termination
  by (relation "measure (\<lambda>n. n)") auto

definition str_int :: "int \<Rightarrow> pystr" where
  "str_int i = (if i < 0 then 45 # digits (nat (- i)) else digits (nat i))"

section \<open>The parsed note record\<close>

text \<open>
  The generated module \<open>apple_notes_pb2\<close> is not part of the sources. The fields the
  code reads are \<open>document\<close>, \<open>note\<close>, \<open>noteText\<close>, \<open>attributeRun\<close>, \<open>length\<close>,
  \<open>attachmentInfo\<close>, \<open>attachmentIdentifier\<close> and \<open>typeUti\<close>; an optional message
  field tested with \<open>HasField\<close> is an \<open>option\<close>.
\<close>

record AttachmentInfo =
  attachmentIdentifier :: pystr
  typeUti :: pystr

record AttributeRun =
  length_run :: int
  attachmentInfo :: "AttachmentInfo option"

record Note =
  noteText :: pystr
  attributeRun :: "AttributeRun list"

record Document =
  note_doc :: "Note option"

record NoteStoreProto =
  document :: "Document option"

section \<open>Decompression\<close>

text \<open>
  \<open>zlib.decompress(data, wbits)\<close> is a library function: on a \<open>bytes\<close> argument it
  returns the whole inflated stream or raises \<open>zlib.error\<close>. It is a parameter
  \<open>zl wbits data\<close>. The value of \<open>wbits\<close> selects the framing: 16 + 8..15 a gzip header
  and trailer, 8..15 a zlib header and trailer, -8..-15 a raw deflate stream.
\<close>

datatype zresult = ZOk bytes | ZError

definition MAX_WBITS :: int where
  "MAX_WBITS = 15"

text \<open>
  \<open>decompress_gzip_data\<close> (lines 200-205). The second call passes no \<open>wbits\<close>, which
  is the library's default \<open>MAX_WBITS\<close>. An absent blob (\<open>None\<close>) makes the first call
  raise \<open>TypeError\<close>, which the clause \<open>except Exception\<close> turns into \<open>None\<close>.
\<close>

definition decompress_gzip_data :: "(int \<Rightarrow> bytes \<Rightarrow> zresult) \<Rightarrow> bytes option \<Rightarrow> bytes option" where
  "decompress_gzip_data zl gzipped_data =
     (case gzipped_data of
        None \<Rightarrow> None
      | Some d \<Rightarrow>
          (case zl (16 + MAX_WBITS) d of
             ZOk out \<Rightarrow> Some out
           | ZError \<Rightarrow>
               (case zl MAX_WBITS d of
                  ZOk out \<Rightarrow> Some out
                | ZError \<Rightarrow> None)))"

section \<open>Reconstruction of the note text\<close>

definition placeholder_token :: "AttachmentInfo \<Rightarrow> pystr" where
  "placeholder_token ai =
     ascii ''![ATTACHMENT|'' @ attachmentIdentifier ai @ ascii ''|'' @ typeUti ai @ ascii '']''"

text \<open>
  The loop over \<open>note.attributeRun\<close> of \<open>decode_note_protobuf\<close> (lines 216-220); the
  state is the pair \<open>(text, pos)\<close>.
\<close>

fun walk_runs :: "pystr \<Rightarrow> AttributeRun list \<Rightarrow> pystr \<times> int \<Rightarrow> pystr \<times> int" where
  "walk_runs content [] (text, pos) = (text, pos)"
| "walk_runs content (run # runs) (text, pos) =
     (let l = length_run run; seg = py_slice content pos (pos + l)
      in walk_runs content runs
           (case attachmentInfo run of
              Some ai \<Rightarrow> text @ placeholder_token ai
            | None \<Rightarrow> text @ seg,
            pos + l))"

text \<open>The same loop in \<open>decode_note_protobuf_text_only\<close> (lines 235-238).\<close>

fun walk_runs_text_only :: "pystr \<Rightarrow> AttributeRun list \<Rightarrow> pystr \<times> int \<Rightarrow> pystr \<times> int" where
  "walk_runs_text_only content [] (text, pos) = (text, pos)"
| "walk_runs_text_only content (run # runs) (text, pos) =
     (let l = length_run run; seg = py_slice content pos (pos + l)
      in walk_runs_text_only content runs
           (case attachmentInfo run of
              Some ai \<Rightarrow> text
            | None \<Rightarrow> text @ seg,
            pos + l))"

text \<open>
  \<open>ParseFromString\<close> is a parameter \<open>parse\<close>: \<open>None\<close> when it raises, which the
  \<open>except Exception\<close> of the caller turns into the text \<open>[Proto decode error]\<close>.
\<close>

definition decode_note_protobuf ::
  "(int \<Rightarrow> bytes \<Rightarrow> zresult) \<Rightarrow> (bytes \<Rightarrow> NoteStoreProto option) \<Rightarrow> bytes option \<Rightarrow> pystr" where
  "decode_note_protobuf zl parse data_blob =
     (if data_blob = None \<or> data_blob = Some [] then ascii ''[No data blob]''
      else
        (case decompress_gzip_data zl data_blob of
           None \<Rightarrow> ascii ''[Decompression failed]''
         | Some decompressed \<Rightarrow>
             if decompressed = [] then ascii ''[Decompression failed]''
             else
               (case parse decompressed of
                  None \<Rightarrow> ascii ''[Proto decode error]''
                | Some proto \<Rightarrow>
                    (case document proto of
                       None \<Rightarrow> ascii ''[Doc/Note not found in Proto]''
                     | Some doc \<Rightarrow>
                         (case note_doc doc of
                            None \<Rightarrow> ascii ''[Doc/Note not found in Proto]''
                          | Some n \<Rightarrow>
                              (let content = noteText n
                               in if attributeRun n \<noteq> []
                                  then fst (walk_runs content (attributeRun n) ([], 0))
                                  else content))))))"

definition decode_note_protobuf_text_only ::
  "(int \<Rightarrow> bytes \<Rightarrow> zresult) \<Rightarrow> (bytes \<Rightarrow> NoteStoreProto option) \<Rightarrow> bytes option \<Rightarrow> pystr" where
  "decode_note_protobuf_text_only zl parse data_blob =
     (if data_blob = None \<or> data_blob = Some [] then ascii ''[No data blob]''
      else
        (case decompress_gzip_data zl data_blob of
           None \<Rightarrow> ascii ''[Decompression failed]''
         | Some decompressed \<Rightarrow>
             if decompressed = [] then ascii ''[Decompression failed]''
             else
               (case parse decompressed of
                  None \<Rightarrow> ascii ''[Proto decode error]''
                | Some proto \<Rightarrow>
                    (case document proto of
                       None \<Rightarrow> ascii ''[Doc/Note not found in Proto]''
                     | Some doc \<Rightarrow>
                         (case note_doc doc of
                            None \<Rightarrow> ascii ''[Doc/Note not found in Proto]''
                          | Some n \<Rightarrow>
                              (let content = noteText n;
                                   text = (if attributeRun n \<noteq> []
                                           then fst (walk_runs_text_only content (attributeRun n) ([], 0))
                                           else content)
                               in py_strip (py_remove OBJ_REPLACEMENT text)))))))"

text \<open>
  A blob that goes through both decoders down to the note \<open>n\<close>: it is not empty, it
  inflates to a non-empty message, and the message parses to a document holding \<open>n\<close>.
\<close>

definition decodes_to ::
  "(int \<Rightarrow> bytes \<Rightarrow> zresult) \<Rightarrow> (bytes \<Rightarrow> NoteStoreProto option) \<Rightarrow> bytes option \<Rightarrow> Note \<Rightarrow> bool" where
  "decodes_to zl parse data_blob n =
     (case data_blob of
        None \<Rightarrow> False
      | Some d \<Rightarrow>
          d \<noteq> [] \<and>
          (case decompress_gzip_data zl (Some d) of
             None \<Rightarrow> False
           | Some decompressed \<Rightarrow>
               decompressed \<noteq> [] \<and>
               (case parse decompressed of
                  None \<Rightarrow> False
                | Some proto \<Rightarrow>
                    (case document proto of
                       None \<Rightarrow> False
                     | Some doc \<Rightarrow> note_doc doc = Some n))))"

section \<open>The title of an exported note\<close>

text \<open>
  The title computed by \<open>export_note_to_markdown\<close> (lines 286-293). \<open>title\<close> and
  \<open>summary\<close> are database columns, \<open>None\<close> when NULL; \<open>not title\<close> holds for \<open>None\<close>
  and for the empty string. \<open>split('\n', 1)[0]\<close> is the text before the first line
  feed (code point 10).
\<close>

definition export_note_to_markdown_title :: "int \<Rightarrow> pystr option \<Rightarrow> pystr option \<Rightarrow> pystr \<Rightarrow> pystr" where
  "export_note_to_markdown_title pk title summary content_ph =
     (let derived =
        (let first_line =
           (if py_strip content_ph \<noteq> []
            then (let potential_title = py_strip (takeWhile (\<lambda>c. c \<noteq> 10) (py_strip content_ph))
                  in if \<not> prefix (ascii ''![ATTACHMENT'') potential_title
                     then Some (take 80 potential_title)
                     else None)
            else None)
         in case first_line of
              Some l \<Rightarrow>
                if l \<noteq> [] then l
                else (case summary of
                        Some s \<Rightarrow> if s \<noteq> [] then py_strip (take 80 s) else ascii ''Untitled_Note_'' @ str_int pk
                      | None \<Rightarrow> ascii ''Untitled_Note_'' @ str_int pk)
            | None \<Rightarrow>
                (case summary of
                   Some s \<Rightarrow> if s \<noteq> [] then py_strip (take 80 s) else ascii ''Untitled_Note_'' @ str_int pk
                 | None \<Rightarrow> ascii ''Untitled_Note_'' @ str_int pk))
      in case title of
           Some t \<Rightarrow> if t \<noteq> [] then t else derived
         | None \<Rightarrow> derived)"

section \<open>Library functions used by the attachment code\<close>

text \<open>
  \<open>str.isalnum\<close>, \<open>str.lower\<close> and \<open>mimetypes.guess_extension\<close> belong to Python and
  its Unicode tables. On ASCII they are written out; beyond ASCII the tables are the
  parameters \<open>unicode_isalnum\<close> and \<open>unicode_lower\<close>, and \<open>guess_extension\<close> is a
  parameter as a whole.
\<close>

record pylib =
  unicode_isalnum :: "nat \<Rightarrow> bool"
  unicode_lower :: "nat \<Rightarrow> pystr"
  guess_extension :: "pystr \<Rightarrow> pystr option"

definition py_isalnum :: "pylib \<Rightarrow> nat \<Rightarrow> bool" where
  "py_isalnum lib c =
     (if c < 128 then (48 \<le> c \<and> c \<le> 57) \<or> (65 \<le> c \<and> c \<le> 90) \<or> (97 \<le> c \<and> c \<le> 122)
      else unicode_isalnum lib c)"

definition py_lower :: "pylib \<Rightarrow> pystr \<Rightarrow> pystr" where
  "py_lower lib s =
     concat (map (\<lambda>c. if c < 128 then [if 65 \<le> c \<and> c \<le> 90 then c + 32 else c]
                        else unicode_lower lib c) s)"

text \<open>\<open>s.split()\<close>: the maximal runs of characters that are not white space.\<close>

fun split_acc :: "pystr \<Rightarrow> pystr \<Rightarrow> pystr list" where
  "split_acc cur [] = (if cur = [] then [] else [cur])"
| "split_acc cur (c # cs) =
     (if py_isspace c then (if cur = [] then split_acc [] cs else cur # split_acc [] cs)
      else split_acc (cur @ [c]) cs)"

definition py_split :: "pystr \<Rightarrow> pystr list" where
  "py_split s = split_acc [] s"

fun py_join :: "pystr \<Rightarrow> pystr list \<Rightarrow> pystr" where
  "py_join sep [] = []"
| "py_join sep [w] = w"
| "py_join sep (w # ws) = w @ sep @ py_join sep ws"

text \<open>
  \<open>x or d\<close> for an optional string \<open>x\<close>: \<open>None\<close> and the empty string are false. In a
  condition, \<open>x\<close> is true exactly when \<open>str_or x [] \<noteq> []\<close>.
\<close>

definition str_or :: "pystr option \<Rightarrow> pystr \<Rightarrow> pystr" where
  "str_or x d = (case x of Some s \<Rightarrow> if s \<noteq> [] then s else d | None \<Rightarrow> d)"

text \<open>
  A \<open>pathlib.Path\<close> (POSIX flavour) is the list of its parts; the first part of an
  absolute path is the root \<open>/\<close> (\<open>//\<close> when the string starts with exactly two
  slashes). \<open>Path(s)\<close> splits \<open>s\<close> at the slashes (code point 47) and drops the
  empty parts and the parts \<open>.\<close>. \<open>p / s\<close> is \<open>Path(s)\<close> when \<open>s\<close> is absolute and
  \<open>p\<close> followed by the parts of \<open>s\<close> otherwise.
\<close>

type_synonym path = "pystr list"

text \<open>\<open>s.split(sep)\<close> for a one-character separator.\<close>

fun split_on :: "nat \<Rightarrow> pystr \<Rightarrow> pystr list" where
  "split_on sep [] = [[]]"
| "split_on sep (c # cs) =
     (if c = sep then [] # split_on sep cs
      else (case split_on sep cs of
              w # ws \<Rightarrow> (c # w) # ws
            | [] \<Rightarrow> [[c]]))"

definition path_parts :: "pystr \<Rightarrow> path" where
  "path_parts s =
     (let comps = filter (\<lambda>w. w \<noteq> [] \<and> w \<noteq> ascii ''.'') (split_on 47 s)
      in if prefix (ascii ''///'') s then ascii ''/'' # comps
         else if prefix (ascii ''//'') s then ascii ''//'' # comps
         else if prefix (ascii ''/'') s then ascii ''/'' # comps
         else comps)"

definition pjoin :: "path \<Rightarrow> pystr \<Rightarrow> path" where
  "pjoin p seg = (if prefix (ascii ''/'') seg then path_parts seg else p @ path_parts seg)"

text \<open>\<open>p.name\<close>: the last part, or the empty string when \<open>p\<close> has no part but a root.\<close>

definition path_name :: "path \<Rightarrow> pystr" where
  "path_name p =
     (if p = [] then []
      else if length p = 1 \<and> prefix (ascii ''/'') (hd p) then []
      else last p)"

text \<open>\<open>str(p)\<close>.\<close>

fun path_str :: "path \<Rightarrow> pystr" where
  "path_str [] = ascii ''.''"
| "path_str [a] = a"
| "path_str (a # b # r) =
     (if prefix (ascii ''/'') a then a @ path_str (b # r)
      else a @ ascii ''/'' @ path_str (b # r))"

text \<open>
  \<open>p.suffix\<close> and \<open>p.stem\<close>: with \<open>name = p.name\<close> and \<open>i = name.rfind('.')\<close>, the
  suffix is \<open>name[i:]\<close> when \<open>0 < i < len(name) - 1\<close> and empty otherwise; the stem is
  the rest of the name.
\<close>

definition name_suffix :: "pystr \<Rightarrow> pystr" where
  "name_suffix name =
     (let after = takeWhile (\<lambda>c. c \<noteq> 46) (rev name)
      in if length after = length name then []
         else (let i = length name - length after - 1
               in if 0 < i \<and> i < length name - 1 then drop i name else []))"

definition path_suffix :: "path \<Rightarrow> pystr" where
  "path_suffix p = name_suffix (path_name p)"

definition path_stem :: "path \<Rightarrow> pystr" where
  "path_stem p =
     (let name = path_name p
      in take (length name - length (name_suffix name)) name)"

text \<open>
  \<open>NOTES_DATA_PATH\<close> (line 41). The home directory that \<open>expanduser\<close> puts in
  place of \<open>~\<close> is not known here; it is kept as the part \<open>~\<close>.
\<close>

definition NOTES_DATA_PATH :: path where
  "NOTES_DATA_PATH = [ascii ''~'', ascii ''Library'', ascii ''Group Containers'', ascii ''group.com.apple.notes'']"

definition ATTACHMENTS_SUBDIR :: pystr where
  "ATTACHMENTS_SUBDIR = ascii ''_attachments''"

definition UTI_EXTENSIONS :: "(pystr \<times> pystr) list" where
  "UTI_EXTENSIONS =
     [(ascii ''public.jpeg'', ascii ''.jpg''), (ascii ''public.png'', ascii ''.png''),
      (ascii ''public.gif'', ascii ''.gif''), (ascii ''public.tiff'', ascii ''.tiff''),
      (ascii ''com.adobe.pdf'', ascii ''.pdf''), (ascii ''public.plain-text'', ascii ''.txt''),
      (ascii ''public.rtf'', ascii ''.rtf''), (ascii ''public.url'', ascii ''.url''),
      (ascii ''public.vcard'', ascii ''.vcf''), (ascii ''com.apple.keynote.key'', ascii ''.key''),
      (ascii ''com.apple.keynote.kth'', ascii ''.kth''),
      (ascii ''com.apple.numbers.numbers'', ascii ''.numbers''),
      (ascii ''com.apple.pages.pages'', ascii ''.pages''),
      (ascii ''com.microsoft.word.doc'', ascii ''.doc''),
      (ascii ''org.openxmlformats.wordprocessingml.document'', ascii ''.docx''),
      (ascii ''com.microsoft.excel.xls'', ascii ''.xls''),
      (ascii ''org.openxmlformats.spreadsheetml.sheet'', ascii ''.xlsx''),
      (ascii ''com.microsoft.powerpoint.ppt'', ascii ''.ppt''),
      (ascii ''org.openxmlformats.presentationml.presentation'', ascii ''.pptx''),
      (ascii ''public.mpeg-4'', ascii ''.mp4''), (ascii ''public.mpeg-4-audio'', ascii ''.m4a''),
      (ascii ''public.mp3'', ascii ''.mp3''), (ascii ''com.apple.quicktime-movie'', ascii ''.mov''),
      (ascii ''com.apple.drawing'', ascii ''.png''), (ascii ''com.apple.drawing.2'', ascii ''.png''),
      (ascii ''com.apple.paper'', ascii ''.png''), (ascii ''com.apple.paper.doc.scan'', ascii ''.pdf''),
      (ascii ''com.apple.notes.gallery'', ascii ''.jpg'')]"

text \<open>\<open>sanitize_filename\<close> (lines 96-100) on a string, with \<open>allow_slashes\<close> false.\<close>

definition sanitize_filename :: "pylib \<Rightarrow> pystr \<Rightarrow> pystr" where
  "sanitize_filename lib name =
     (let sanitized = filter (\<lambda>c. py_isalnum lib c \<or> c = 32 \<or> c = 95 \<or> c = 45) name;
          cut = py_strip (take 150 (py_join (ascii ''_'') (py_split sanitized)))
      in if cut \<noteq> [] then cut else ascii ''Untitled'')"

text \<open>\<open>get_extension_from_uti\<close> (lines 244-249).\<close>

definition get_extension_from_uti :: "pylib \<Rightarrow> pystr \<Rightarrow> pystr \<Rightarrow> pystr" where
  "get_extension_from_uti lib uti fallback_filename =
     (case map_of UTI_EXTENSIONS uti of
        Some e \<Rightarrow> e
      | None \<Rightarrow>
          (let ext = str_or (guess_extension lib uti) []
           in if ext \<noteq> [] then ext
              else if fallback_filename \<noteq> [] then path_suffix (path_parts fallback_filename)
              else ascii ''.bin''))"

section \<open>The database and the file system\<close>

text \<open>
  The database cursor and the file system are outside the program. A query either
  raises \<open>sqlite3.OperationalError\<close> with a message or gives the row of \<open>fetchone()\<close>
  (\<open>None\<close> when there is none); a NULL column is \<open>None\<close>. The \<open>world\<close> holds one
  function per query text of the source, the test \<open>Path.exists\<close>, and \<open>shutil.copy2\<close>
  (false when it raises).
\<close>

datatype 'a query = OperationalError pystr | Row "'a option"

text \<open>
  A numeric column (\<open>ZSIZEWIDTH\<close>, \<open>ZSIZEHEIGHT\<close>) comes back as an \<open>int\<close> or as
  a \<open>float\<close>. The code tests it for truth and formats it with \<open>str\<close>. For a float
  these two observations are given: whether it is non-zero, and its text (\<open>640.0\<close>
  for the float 640).
\<close>

datatype dbnum = DbInt int | DbReal bool pystr

fun dbnum_true :: "dbnum \<Rightarrow> bool" where
  "dbnum_true (DbInt k) = (k \<noteq> 0)"
| "dbnum_true (DbReal nonzero txt) = nonzero"

fun dbnum_str :: "dbnum \<Rightarrow> pystr" where
  "dbnum_str (DbInt k) = str_int k"
| "dbnum_str (DbReal nonzero txt) = txt"

record world =
  q_att :: "pystr \<Rightarrow> int \<Rightarrow> (int option \<times> pystr option \<times> int option) query"
  q_med :: "int \<Rightarrow> int \<Rightarrow> (pystr option \<times> pystr option \<times> pystr option) query"
  q_med_fb :: "int option \<Rightarrow> int \<Rightarrow> (pystr option \<times> pystr option) query"
  q_fallback_image :: "int \<Rightarrow> int \<Rightarrow> (pystr option \<times> pystr option) query"
  q_fallback_pdf :: "int \<Rightarrow> int \<Rightarrow> (pystr option \<times> pystr option) query"
  q_gallery :: "int \<Rightarrow> int \<Rightarrow> (pystr option \<times> dbnum option \<times> dbnum option) query"
  path_exists :: "path \<Rightarrow> bool"
  copy2 :: "path \<Rightarrow> path \<Rightarrow> bool"

record entity_ids =
  ICAttachment :: int
  ICMedia :: int
  ICAccount :: int

type_synonym details =
  "int option \<times> pystr option \<times> int option \<times> pystr option \<times> pystr option \<times> pystr option"

text \<open>
  The handler \<open>except sqlite3.OperationalError as e\<close> of
  \<open>get_attachment_and_media_details\<close> (lines 161-166), entered with the values
  \<open>att_pk\<close>, \<open>uti\<close>, \<open>med_pk\<close> assigned so far.
\<close>

definition media_details_on_error ::
  "world \<Rightarrow> pystr \<Rightarrow> int option \<Rightarrow> pystr option \<Rightarrow> int option \<Rightarrow> int \<Rightarrow> details" where
  "media_details_on_error W e att_pk uti med_pk z_med =
     (if py_in (ascii ''no such column: ZGENERATION1'') e
      then (case q_med_fb W med_pk z_med of
              OperationalError e2 \<Rightarrow> (att_pk, uti, med_pk, None, None, None)
            | Row r \<Rightarrow>
                (case r of
                   Some (med_id, fname) \<Rightarrow> (att_pk, uti, med_pk, med_id, fname, None)
                 | None \<Rightarrow> (att_pk, uti, med_pk, None, None, None)))
      else (None, None, None, None, None, None))"

text \<open>\<open>get_attachment_and_media_details\<close> (lines 152-166).\<close>

definition get_attachment_and_media_details :: "world \<Rightarrow> pystr \<Rightarrow> int \<Rightarrow> int \<Rightarrow> details" where
  "get_attachment_and_media_details W attach_id z_att z_med =
     (case q_att W attach_id z_att of
        OperationalError e \<Rightarrow> media_details_on_error W e None None None z_med
      | Row r \<Rightarrow>
          (case (case r of Some row \<Rightarrow> row | None \<Rightarrow> (None, None, None)) of
             (att_pk, uti, med_pk) \<Rightarrow>
               (case med_pk of
                  None \<Rightarrow> (att_pk, uti, None, None, None, None)
                | Some mp \<Rightarrow>
                    (case q_med W mp z_med of
                       OperationalError e \<Rightarrow> media_details_on_error W e att_pk uti med_pk z_med
                     | Row r2 \<Rightarrow>
                         (case r2 of
                            Some (med_id, fname, gen) \<Rightarrow> (att_pk, uti, med_pk, med_id, fname, gen)
                          | None \<Rightarrow> (att_pk, uti, med_pk, None, None, None))))))"

text \<open>
  One round of the loop \<open>for base in paths\<close> of \<open>find_attachment_source_path\<close>
  (lines 171-196): \<open>Some p\<close> when the round returns \<open>p\<close>, \<open>None\<close> when it falls
  through to the next base. The four \<open>if\<close> blocks run one after the other.
  In the drawing block the body of \<open>for ext in ["jpg", "png"]\<close> is the assignment to
  \<open>p\<close> alone (line 183); the test \<open>p.exists()\<close> of line 184 comes after the loop and
  sees the last \<open>p\<close>.
\<close>

definition probe_gallery :: "world \<Rightarrow> int \<Rightarrow> pystr \<Rightarrow> int \<Rightarrow> path \<Rightarrow> path option" where
  "probe_gallery W att_pk uti z_att base =
     (if uti = ascii ''com.apple.notes.gallery''
      then (case (case q_gallery W att_pk z_att of
                    OperationalError e \<Rightarrow> (None, None, None)
                  | Row r \<Rightarrow> (case r of Some row \<Rightarrow> row | None \<Rightarrow> (None, None, None))) of
              (a_uuid, w, h) \<Rightarrow>
                (case (w, h) of
                   (Some wv, Some hv) \<Rightarrow>
                     (let p = pjoin (pjoin base (ascii ''Previews''))
                                (str_or a_uuid [] @ ascii ''-1-'' @ dbnum_str wv @ ascii ''x'' @ dbnum_str hv
                                 @ ascii ''-0.jpeg'')
                      in if str_or a_uuid [] \<noteq> [] \<and> dbnum_true wv \<and> dbnum_true hv \<and> path_exists W p
                         then Some p else None)
                 | _ \<Rightarrow> None))
      else None)"

definition probe_scan_pdf :: "world \<Rightarrow> int \<Rightarrow> pystr \<Rightarrow> int \<Rightarrow> path \<Rightarrow> path option" where
  "probe_scan_pdf W att_pk uti z_att base =
     (if uti = ascii ''com.apple.paper.doc.scan''
      then (case (case q_fallback_pdf W att_pk z_att of
                    OperationalError e \<Rightarrow> (None, None)
                  | Row r \<Rightarrow> (case r of Some row \<Rightarrow> row | None \<Rightarrow> (None, None))) of
              (a_uuid, fb_g) \<Rightarrow>
                (let p = pjoin (pjoin (pjoin (pjoin base (ascii ''FallbackPDFs'')) (str_or a_uuid []))
                                  (str_or fb_g []))
                           (ascii ''FallbackPDF.pdf'')
                 in if str_or a_uuid [] \<noteq> [] \<and> path_exists W p then Some p
                    else probe_gallery W att_pk uti z_att base))
      else probe_gallery W att_pk uti z_att base)"

definition probe_drawing :: "world \<Rightarrow> int \<Rightarrow> pystr \<Rightarrow> int \<Rightarrow> path \<Rightarrow> path option" where
  "probe_drawing W att_pk uti z_att base =
     (if uti \<in> set [ascii ''com.apple.drawing'', ascii ''com.apple.drawing.2'', ascii ''com.apple.paper'']
      then (case (case q_fallback_image W att_pk z_att of
                    OperationalError e \<Rightarrow> (None, None)
                  | Row r \<Rightarrow> (case r of Some row \<Rightarrow> row | None \<Rightarrow> (None, None))) of
              (a_uuid, fb_g) \<Rightarrow>
                if str_or a_uuid [] \<noteq> []
                then (let p_gen = pjoin (pjoin (pjoin (pjoin base (ascii ''FallbackImages'')) (str_or a_uuid []))
                                           (str_or fb_g []))
                                    (ascii ''FallbackImage.png'')
                      in if str_or fb_g [] \<noteq> [] \<and> path_exists W p_gen then Some p_gen
                         else (let p = foldl (\<lambda>p ext. pjoin (pjoin base (ascii ''FallbackImages''))
                                                        (str_or a_uuid [] @ ascii ''.'' @ ext))
                                         p_gen [ascii ''jpg'', ascii ''png'']
                               in if path_exists W p then Some p
                                  else probe_scan_pdf W att_pk uti z_att base))
                else probe_scan_pdf W att_pk uti z_att base)
      else probe_scan_pdf W att_pk uti z_att base)"

definition probe_base ::
  "world \<Rightarrow> int \<Rightarrow> pystr \<Rightarrow> pystr option \<Rightarrow> pystr option \<Rightarrow> pystr option \<Rightarrow> int \<Rightarrow> path \<Rightarrow> path option" where
  "probe_base W att_pk uti med_id fname gen z_att base =
     (if str_or med_id [] \<noteq> [] \<and> str_or fname [] \<noteq> []
      then (let g = str_or gen [];
                p = pjoin (pjoin (pjoin (pjoin base (ascii ''Media'')) (str_or med_id [])) g) (str_or fname []);
                p_no_g = pjoin (pjoin (pjoin base (ascii ''Media'')) (str_or med_id [])) (str_or fname [])
            in if path_exists W p then Some p
               else if g \<noteq> [] \<and> path_exists W p_no_g then Some p_no_g
               else probe_drawing W att_pk uti z_att base)
      else probe_drawing W att_pk uti z_att base)"

fun first_base :: "(path \<Rightarrow> path option) \<Rightarrow> path list \<Rightarrow> path option" where
  "first_base f [] = None"
| "first_base f (base # paths) = (case f base of Some p \<Rightarrow> Some p | None \<Rightarrow> first_base f paths)"

text \<open>\<open>find_attachment_source_path\<close> (lines 168-197).\<close>

definition find_attachment_source_path ::
  "world \<Rightarrow> int \<Rightarrow> pystr \<Rightarrow> pystr option \<Rightarrow> pystr option \<Rightarrow> pystr option \<Rightarrow> int \<Rightarrow> pystr option
     \<Rightarrow> path option" where
  "find_attachment_source_path W att_pk uti med_id fname gen z_att acc_uuid =
     (let paths = (if str_or acc_uuid [] \<noteq> []
                   then [pjoin (pjoin NOTES_DATA_PATH (ascii ''Accounts'')) (str_or acc_uuid [])]
                   else []) @ [NOTES_DATA_PATH]
      in first_base (probe_base W att_pk uti med_id fname gen z_att) paths)"

section \<open>Substitution of the placeholders\<close>

text \<open>
  The pattern \<open>!\[ATTACHMENT\|([^|]+)\|([^\]]+)\]\<close> at the start of a string. After
  the literal prefix, the first group is the longest run without \<open>|\<close> (code point
  124), which must not be empty and must be followed by \<open>|\<close>; the second group is the
  longest run without \<open>]\<close> (code point 93), not empty and followed by \<open>]\<close>. A
  negated character class matches a line feed too. The result is the two groups and
  the length of the match.
\<close>

definition match_at :: "pystr \<Rightarrow> (pystr \<times> pystr \<times> nat) option" where
  "match_at s =
     (if prefix (ascii ''![ATTACHMENT|'') s
      then (let r = drop 13 s;
                g1 = takeWhile (\<lambda>c. c \<noteq> 124) r;
                r1 = dropWhile (\<lambda>c. c \<noteq> 124) r
            in if g1 = [] \<or> r1 = [] then None
               else (let r2 = tl r1;
                         g2 = takeWhile (\<lambda>c. c \<noteq> 93) r2;
                         r3 = dropWhile (\<lambda>c. c \<noteq> 93) r2
                     in if g2 = [] \<or> r3 = [] then None
                        else Some (g1, g2, 13 + length g1 + 1 + length g2 + 1)))
      else None)"

record rmatch =
  m_start :: nat
  m_end :: nat
  group1 :: pystr
  group2 :: pystr

text \<open>\<open>regex.search(processed, offset)\<close>: the leftmost match that starts at or after \<open>offset\<close>.\<close>

fun find_match :: "pystr \<Rightarrow> nat \<Rightarrow> rmatch option" where
  "find_match [] i = None"
| "find_match (c # cs) i =
     (case match_at (c # cs) of
        Some (g1, g2, n) \<Rightarrow> Some \<lparr>m_start = i, m_end = i + n, group1 = g1, group2 = g2\<rparr>
      | None \<Rightarrow> find_match cs (Suc i))"

definition regex_search :: "pystr \<Rightarrow> nat \<Rightarrow> rmatch option" where
  "regex_search s offset = find_match (drop offset s) offset"

definition non_file :: "pystr list" where
  "non_file =
     [ascii ''com.apple.notes.table'', ascii ''com.apple.notes.inlinetextattachment.hashtag'',
      ascii ''com.apple.notes.inlinetextattachment.mention'',
      ascii ''com.apple.notes.inlinetextattachment.link'', ascii ''public.url'']"

definition img :: "pystr list" where
  "img =
     [ascii ''image'', ascii ''jpeg'', ascii ''png'', ascii ''gif'', ascii ''tiff'', ascii ''scan'',
      ascii ''drawing'', ascii ''gallery'', ascii ''public.jpeg'', ascii ''public.png'',
      ascii ''public.tiff'', ascii ''public.gif'', ascii ''com.apple.drawing'',
      ascii ''com.apple.drawing.2'', ascii ''com.apple.paper'']"

definition pdf :: "pystr list" where
  "pdf = [ascii ''pdf'', ascii ''com.adobe.pdf'', ascii ''com.apple.paper.doc.scan'']"

text \<open>
  What one placeholder does to the outside: the database lookup of
  \<open>get_attachment_and_media_details\<close>, the search of \<open>find_attachment_source_path\<close>
  (database and file system), the copy of \<open>shutil.copy2\<close>; and, once per call of
  \<open>process_attachments\<close>, the creation of the attachments directory.
\<close>

datatype event =
  MakeDir path
| DbLookup pystr
| LocateSource int pystr
| CopyFile path path

text \<open>The per-note memo table \<open>processed_cache\<close>: identifier to \<open>(dest_fname, repl)\<close>.\<close>

type_synonym memo = "pystr \<rightharpoonup> (pystr option \<times> pystr)"

text \<open>
  The markup for a copied file (lines 274-278): \<open>is_img\<close> is tested before \<open>is_pdf\<close>.
\<close>

definition markup :: "pylib \<Rightarrow> pystr \<Rightarrow> pystr \<Rightarrow> pystr \<Rightarrow> pystr" where
  "markup lib eff_uti safe_stem dest_fname =
     (let rel_path = pjoin [ATTACHMENTS_SUBDIR] dest_fname;
          alt = map (\<lambda>c. if c = 95 then 32 else c) safe_stem;
          is_img = list_ex (\<lambda>i. py_in i (py_lower lib eff_uti)) img;
          is_pdf = list_ex (\<lambda>p. py_in p (py_lower lib eff_uti)) pdf
      in if is_img then ascii ''!['' @ alt @ ascii '']('' @ path_str rel_path @ ascii '')''
         else if is_pdf then ascii ''['' @ alt @ ascii '' (PDF)]('' @ path_str rel_path @ ascii '')''
         else ascii ''['' @ alt @ ascii '' (File)]('' @ path_str rel_path @ ascii '')'')"

text \<open>
  The body of the loop of \<open>process_attachments\<close> for one match (lines 261-281): the
  replacement text, the memo table afterwards, and what was done to the outside.
\<close>

definition resolve_placeholder ::
  "pylib \<Rightarrow> world \<Rightarrow> pystr option \<Rightarrow> entity_ids \<Rightarrow> path \<Rightarrow> memo \<Rightarrow> pystr \<Rightarrow> pystr
     \<Rightarrow> pystr \<times> memo \<times> event list" where
  "resolve_placeholder lib W acc_uuid ids att_dir processed_cache att_id uti_ph =
     (if uti_ph \<in> set non_file
      then (ascii ''[Unsupported: '' @ uti_ph @ ascii '']'', processed_cache, [])
      else
        (case processed_cache att_id of
           Some (dest, repl) \<Rightarrow> (repl, processed_cache, [])
         | None \<Rightarrow>
             (case get_attachment_and_media_details W att_id (ICAttachment ids) (ICMedia ids) of
                (att_pk, uti_db, med_pk, med_id, fname, gen) \<Rightarrow>
                  (let eff_uti = str_or uti_db uti_ph
                   in case (case att_pk of Some k \<Rightarrow> if k \<noteq> 0 then Some k else None | None \<Rightarrow> None) of
                        None \<Rightarrow>
                          (ascii ''[Att DB missing: '' @ att_id @ ascii '']'', processed_cache,
                           [DbLookup att_id])
                      | Some k \<Rightarrow>
                          (case find_attachment_source_path W k eff_uti med_id fname gen
                                  (ICAttachment ids) acc_uuid of
                             None \<Rightarrow>
                               (let repl = ascii ''[Att source missing: '' @ str_or fname att_id @ ascii '']''
                                in (repl, processed_cache(att_id \<mapsto> (None, repl)),
                                    [DbLookup att_id, LocateSource k eff_uti]))
                           | Some src \<Rightarrow>
                               (let base_fname = str_or fname (path_name src);
                                    stem = path_stem (path_parts base_fname);
                                    ext = get_extension_from_uti lib eff_uti base_fname;
                                    safe_stem = sanitize_filename lib stem;
                                    dest_fname = safe_stem @ ascii ''_'' @ str_int k @ ext;
                                    dest_path = pjoin att_dir dest_fname
                                in if copy2 W src dest_path
                                   then (let repl = markup lib eff_uti safe_stem dest_fname
                                         in (repl, processed_cache(att_id \<mapsto> (Some dest_fname, repl)),
                                             [DbLookup att_id, LocateSource k eff_uti, CopyFile src dest_path]))
                                   else (ascii ''[Error copy '' @ base_fname @ ascii '']'', processed_cache,
                                         [DbLookup att_id, LocateSource k eff_uti,
                                          CopyFile src dest_path])))))))"

text \<open>
  The loop \<open>while True\<close> of \<open>process_attachments\<close> (lines 258-282). Nothing in its
  text bounds the number of rounds, so it is a partial function: \<open>None\<close> is a loop
  that never ends. The outside may change while the note is processed: \<open>Ws n\<close> is the
  database and file system as round \<open>n\<close> finds them. The state is the round number,
  the memo table, \<open>processed\<close>, \<open>offset\<close> and the events so far.
\<close>

partial_function (option) process_loop ::
  "pylib \<Rightarrow> (nat \<Rightarrow> world) \<Rightarrow> pystr option \<Rightarrow> entity_ids \<Rightarrow> path
     \<Rightarrow> nat \<times> memo \<times> pystr \<times> nat \<times> event list \<Rightarrow> (pystr \<times> event list) option" where
  "process_loop lib Ws acc_uuid ids att_dir st =
     (case st of
        (n, processed_cache, processed, offset, evs) \<Rightarrow>
          (case regex_search processed offset of
             None \<Rightarrow> Some (processed, evs)
           | Some m \<Rightarrow>
               (case resolve_placeholder lib (Ws n) acc_uuid ids att_dir processed_cache
                       (group1 m) (group2 m) of
                  (repl, cache', ev) \<Rightarrow>
                    process_loop lib Ws acc_uuid ids att_dir
                      (Suc n, cache',
                       take (m_start m) processed @ repl @ drop (m_end m) processed,
                       m_start m + length repl,
                       evs @ ev))))"

text \<open>
  \<open>process_attachments\<close> (lines 251-283). The account identifier \<open>acc_uuid\<close>, which
  line 257 gets from \<open>get_account_uuid\<close> and its process-wide cache, is given by the
  caller; \<open>note_pk\<close> is not used by the source.
\<close>

definition process_attachments ::
  "pylib \<Rightarrow> (nat \<Rightarrow> world) \<Rightarrow> pystr option \<Rightarrow> entity_ids \<Rightarrow> path \<Rightarrow> pystr
     \<Rightarrow> (pystr \<times> event list) option" where
  "process_attachments lib Ws acc_uuid ids base_path text_placeholders =
     (let att_dir = pjoin base_path ATTACHMENTS_SUBDIR
      in process_loop lib Ws acc_uuid ids att_dir
           (0, Map.empty, text_placeholders, 0, [MakeDir att_dir]))"

section \<open>Sample notes, libraries, databases and file systems\<close>

text \<open>
  Concrete inputs on which the theorems below are evaluated: an inflate that returns
  its input, one that always raises, one that succeeds only as raw deflate; a parser
  that returns a given note; and a few notes.
\<close>

definition zl_stored :: "int \<Rightarrow> bytes \<Rightarrow> zresult" where
  "zl_stored wbits d = ZOk d"

definition parse_as :: "Note \<Rightarrow> bytes \<Rightarrow> NoteStoreProto option" where
  "parse_as n d = Some \<lparr>document = Some \<lparr>note_doc = Some n\<rparr>\<rparr>"

definition note_before_after :: Note where
  "note_before_after =
     \<lparr>noteText = ascii ''Before'' @ [OBJ_REPLACEMENT] @ ascii ''After'',
      attributeRun =
        [\<lparr>length_run = 6, attachmentInfo = None\<rparr>,
         \<lparr>length_run = 1,
          attachmentInfo = Some \<lparr>attachmentIdentifier = ascii ''A1'', typeUti = ascii ''public.jpeg''\<rparr>\<rparr>,
         \<lparr>length_run = 5, attachmentInfo = None\<rparr>]\<rparr>"

definition zl_failing :: "int \<Rightarrow> bytes \<Rightarrow> zresult" where
  "zl_failing wbits d = ZError"

definition zl_raw_only :: "int \<Rightarrow> bytes \<Rightarrow> zresult" where
  "zl_raw_only wbits d = (if wbits < 0 then ZOk d else ZError)"

definition note_hello :: Note where
  "note_hello = \<lparr>noteText = ascii ''Hello World'', attributeRun = []\<rparr>"

definition note_padded :: Note where
  "note_padded = \<lparr>noteText = ascii '' hi '', attributeRun = []\<rparr>"

definition lib_ascii :: pylib where
  "lib_ascii = \<lparr>unicode_isalnum = (\<lambda>c. False), unicode_lower = (\<lambda>c. [c]), guess_extension = (\<lambda>u. None)\<rparr>"

definition ids_default :: entity_ids where
  "ids_default = \<lparr>ICAttachment = 7, ICMedia = 8, ICAccount = 1\<rparr>"

definition out_dir :: path where
  "out_dir = [ascii ''exported_notes'']"

text \<open>A database without rows and a file system without files.\<close>

definition world_empty :: world where
  "world_empty =
     \<lparr>q_att = (\<lambda>i z. Row None), q_med = (\<lambda>k z. Row None), q_med_fb = (\<lambda>k z. Row None),
      q_fallback_image = (\<lambda>k z. Row None), q_fallback_pdf = (\<lambda>k z. Row None),
      q_gallery = (\<lambda>k z. Row None), path_exists = (\<lambda>p. False), copy2 = (\<lambda>s d. True)\<rparr>"

text \<open>
  Every attachment identifier has the row 5 with the media record \<open>M\<close>, whose file
  name is \<open>fname\<close>; the file system has exactly the files \<open>files\<close> and copies succeed
  when \<open>ok\<close>.
\<close>

definition world_media :: "pystr \<Rightarrow> path list \<Rightarrow> bool \<Rightarrow> world" where
  "world_media fname files ok =
     \<lparr>q_att = (\<lambda>i z. Row (Some (Some 5, Some (ascii ''public.jpeg''), Some 1))),
      q_med = (\<lambda>k z. Row (Some (Some (ascii ''M''), Some fname, None))),
      q_med_fb = (\<lambda>k z. Row None),
      q_fallback_image = (\<lambda>k z. Row None), q_fallback_pdf = (\<lambda>k z. Row None),
      q_gallery = (\<lambda>k z. Row None), path_exists = (\<lambda>p. p \<in> set files), copy2 = (\<lambda>s d. ok)\<rparr>"

text \<open>
  Every attachment identifier has the row 12 of type \<open>uti\<close> without media record; its
  fallback image and fallback PDF have the identifier \<open>U1\<close> and the generation \<open>G1\<close>.
\<close>

definition world_fallback :: "pystr \<Rightarrow> path list \<Rightarrow> world" where
  "world_fallback uti files =
     \<lparr>q_att = (\<lambda>i z. Row (Some (Some 12, Some uti, None))),
      q_med = (\<lambda>k z. Row None), q_med_fb = (\<lambda>k z. Row None),
      q_fallback_image = (\<lambda>k z. Row (Some (Some (ascii ''U1''), Some (ascii ''G1'')))),
      q_fallback_pdf = (\<lambda>k z. Row (Some (Some (ascii ''U1''), Some (ascii ''G1'')))),
      q_gallery = (\<lambda>k z. Row None), path_exists = (\<lambda>p. p \<in> set files), copy2 = (\<lambda>s d. True)\<rparr>"

definition media_file :: path where
  "media_file = NOTES_DATA_PATH @ [ascii ''Media'', ascii ''M'', ascii ''f.jpg'']"

definition fallback_jpg :: path where
  "fallback_jpg = NOTES_DATA_PATH @ [ascii ''FallbackImages'', ascii ''U1.jpg'']"

definition fallback_png :: path where
  "fallback_png = NOTES_DATA_PATH @ [ascii ''FallbackImages'', ascii ''U1.png'']"

definition fallback_pdf :: path where
  "fallback_pdf = NOTES_DATA_PATH @ [ascii ''FallbackPDFs'', ascii ''U1'', ascii ''G1'', ascii ''FallbackPDF.pdf'']"

text \<open>The same world in every round; or one world in round 0 and another afterwards.\<close>

definition always :: "world \<Rightarrow> nat \<Rightarrow> world" where
  "always W n = W"

definition first_then :: "world \<Rightarrow> world \<Rightarrow> nat \<Rightarrow> world" where
  "first_then W0 W1 n = (if n = 0 then W0 else W1)"

definition note_hello_run :: Note where
  "note_hello_run =
     \<lparr>noteText = ascii ''Hello World'',
      attributeRun = [\<lparr>length_run = 11, attachmentInfo = None\<rparr>]\<rparr>"

definition note_negative :: Note where
  "note_negative =
     \<lparr>noteText = ascii ''abc'',
      attributeRun = [\<lparr>length_run = 5, attachmentInfo = None\<rparr>,
                      \<lparr>length_run = - 2, attachmentInfo = None\<rparr>]\<rparr>"

text \<open>
  A gallery row with the identifier \<open>U1\<close> and the size 640 by 480 stored as floats,
  and a file system that holds every path.
\<close>

definition world_gallery :: world where
  "world_gallery =
     \<lparr>q_att = (\<lambda>i z. Row None), q_med = (\<lambda>k z. Row None), q_med_fb = (\<lambda>k z. Row None),
      q_fallback_image = (\<lambda>k z. Row None), q_fallback_pdf = (\<lambda>k z. Row None),
      q_gallery = (\<lambda>k z. Row (Some (Some (ascii ''U1''),
                                          Some (DbReal True (ascii ''640.0'')),
                                          Some (DbReal True (ascii ''480.0''))))),
      path_exists = (\<lambda>p. True), copy2 = (\<lambda>s d. True)\<rparr>"

section \<open>Properties of the reconstruction\<close>

lemma upt_0_Suc_map: "[0..<Suc n] = 0 # map Suc [0..<n]"
  by (simp add: upt_conv_Cons map_Suc_upt del: upt_Suc)

lemma walk_runs_closed:
  "walk_runs content runs (text0, pos0) =
     (text0 @ concat (map (\<lambda>i.
        let P = pos0 + sum_list (map length_run (take i runs)); L = length_run (runs ! i)
        in case attachmentInfo (runs ! i) of
             None \<Rightarrow> py_slice content P (P + L)
           | Some ai \<Rightarrow> placeholder_token ai) [0..<length runs]),
      pos0 + sum_list (map length_run runs))"
proof (induction runs arbitrary: text0 pos0)
  case Nil
  show ?case by simp
next
  case (Cons r rs)
  show ?case
    by (simp add: Cons.IH upt_0_Suc_map Let_def comp_def add.assoc del: upt_Suc cong: option.case_cong split: option.split)
qed

lemma walk_runs_text_only_closed:
  "walk_runs_text_only content runs (text0, pos0) =
     (text0 @ concat (map (\<lambda>i.
        let P = pos0 + sum_list (map length_run (take i runs)); L = length_run (runs ! i)
        in case attachmentInfo (runs ! i) of
             None \<Rightarrow> py_slice content P (P + L)
           | Some ai \<Rightarrow> []) [0..<length runs]),
      pos0 + sum_list (map length_run runs))"
proof (induction runs arbitrary: text0 pos0)
  case Nil
  show ?case by simp
next
  case (Cons r rs)
  show ?case
    by (simp add: Cons.IH upt_0_Suc_map Let_def comp_def add.assoc del: upt_Suc cong: option.case_cong split: option.split)
qed

lemma decodes_toD:
  assumes "decodes_to zl parse blob n"
  shows "decode_note_protobuf zl parse blob =
           (if attributeRun n \<noteq> [] then fst (walk_runs (noteText n) (attributeRun n) ([], 0)) else noteText n)"
    and "decode_note_protobuf_text_only zl parse blob =
           py_strip (py_remove OBJ_REPLACEMENT
             (if attributeRun n \<noteq> [] then fst (walk_runs_text_only (noteText n) (attributeRun n) ([], 0)) else noteText n))"
  using assms
  by (auto simp: decodes_to_def decode_note_protobuf_def decode_note_protobuf_text_only_def Let_def
           split: option.splits)


lemma py_slice_nonneg:
  assumes "0 \<le> P" "0 \<le> L" "P + L \<le> int (length s)"
  shows "py_slice s P (P + L) = take (nat L) (drop (nat P) s)"
    and "length (py_slice s P (P + L)) = nat L"
proof -
  have lo: "py_index (length s) P = nat P"
    using assms by (simp add: py_index_def min_def)
  have hi: "py_index (length s) (P + L) = nat P + nat L"
    using assms by (simp add: py_index_def min_def nat_add_distrib)
  show "py_slice s P (P + L) = take (nat L) (drop (nat P) s)"
    by (simp add: py_slice_def lo hi)
  then show "length (py_slice s P (P + L)) = nat L"
    using assms by simp
qed

lemma sum_take_bounds:
  assumes "\<forall>r \<in> set runs. 0 \<le> length_run r" "i < length runs"
  shows "0 \<le> sum_list (map length_run (take i runs))"
    and "sum_list (map length_run (take i runs)) + length_run (runs ! i) \<le> sum_list (map length_run runs)"
proof -
  have nn: "0 \<le> sum_list (map length_run xs)" if "set xs \<subseteq> set runs" for xs
  proof (rule sum_list_nonneg)
    fix x assume "x \<in> set (map length_run xs)"
    then obtain r where "r \<in> set xs" "x = length_run r" by auto
    with that assms(1) show "0 \<le> x" by blast
  qed
  show "0 \<le> sum_list (map length_run (take i runs))"
    by (rule nn) (rule set_take_subset)
  have split: "runs = take i runs @ (runs ! i) # drop (Suc i) runs"
    using assms(2) by (simp add: id_take_nth_drop)
  have "sum_list (map length_run runs) =
        sum_list (map length_run (take i runs)) + length_run (runs ! i) + sum_list (map length_run (drop (Suc i) runs))"
    by (subst split) simp
  moreover have "0 \<le> sum_list (map length_run (drop (Suc i) runs))"
    by (rule nn) (rule set_drop_subset)
  ultimately show "sum_list (map length_run (take i runs)) + length_run (runs ! i) \<le> sum_list (map length_run runs)"
    by simp
qed

lemma sample_decodes: "decodes_to zl_stored (parse_as n) (Some ''x'') n"
  by (simp add: decodes_to_def decompress_gzip_data_def zl_stored_def parse_as_def)

text \<open>
  C1. For a note with a non-empty \<open>attributeRun\<close> sequence, \<open>decode_note_protobuf\<close>
  walks the runs in order with a cursor that starts at 0: run \<open>i\<close> starts at the cursor
  \<open>P\<close>, the sum of the lengths of the runs before it; a run of length \<open>L\<close> without
  \<open>attachmentInfo\<close> contributes \<open>noteText[P:P+L]\<close>, a run with \<open>attachmentInfo\<close>
  contributes the token \<open>![ATTACHMENT|id|uti]\<close> and none of the buffer, and the cursor
  ends at the sum of all lengths. \<open>decode_note_protobuf_text_only\<close> makes the same walk,
  contributes the slice for runs without \<open>attachmentInfo\<close> and nothing for the others
  (its result is then cleaned of U+FFFC and stripped, as line 240 does).
\<close>

theorem C1_reconstruct_walk:
  assumes "decodes_to zl parse blob n" and "attributeRun n \<noteq> []"
  shows "decode_note_protobuf zl parse blob =
           concat (map (\<lambda>i.
             let P = sum_list (map length_run (take i (attributeRun n)));
                 L = length_run (attributeRun n ! i)
             in case attachmentInfo (attributeRun n ! i) of
                  None \<Rightarrow> py_slice (noteText n) P (P + L)
                | Some ai \<Rightarrow>
                    ascii ''![ATTACHMENT|'' @ attachmentIdentifier ai @ ascii ''|'' @ typeUti ai @ ascii '']'')
             [0..<length (attributeRun n)]) \<and>
         decode_note_protobuf_text_only zl parse blob =
           py_strip (py_remove OBJ_REPLACEMENT (concat (map (\<lambda>i.
             let P = sum_list (map length_run (take i (attributeRun n)));
                 L = length_run (attributeRun n ! i)
             in case attachmentInfo (attributeRun n ! i) of
                  None \<Rightarrow> py_slice (noteText n) P (P + L)
                | Some ai \<Rightarrow> [])
             [0..<length (attributeRun n)]))) \<and>
         snd (walk_runs (noteText n) (attributeRun n) ([], 0)) = sum_list (map length_run (attributeRun n)) \<and>
         snd (walk_runs_text_only (noteText n) (attributeRun n) ([], 0)) = sum_list (map length_run (attributeRun n))"
  using assms
  by (simp add: decodes_toD walk_runs_closed walk_runs_text_only_closed placeholder_token_def
           cong: option.case_cong)

theorem C1_reconstruct_walk_witness:
  "decodes_to zl_stored (parse_as note_before_after) (Some ''x'') note_before_after \<and>
   attributeRun note_before_after \<noteq> [] \<and>
   decode_note_protobuf zl_stored (parse_as note_before_after) (Some ''x'') =
     ascii ''Before![ATTACHMENT|A1|public.jpeg]After'' \<and>
   decode_note_protobuf_text_only zl_stored (parse_as note_before_after) (Some ''x'') =
     ascii ''BeforeAfter''"
proof -
  have h1: "decodes_to zl_stored (parse_as note_before_after) (Some ''x'') note_before_after"
    by (rule sample_decodes)
  have h2: "attributeRun note_before_after \<noteq> []"
    by (simp add: note_before_after_def)
  show ?thesis
    using h1 h2 C1_reconstruct_walk [OF h1 h2]
    by (simp add: note_before_after_def py_slice_def py_index_def py_strip_def py_remove_def
          py_isspace_def OBJ_REPLACEMENT_def upt_conv_Cons Let_def)
qed

lemma walk_text_only_length:
  assumes "\<forall>r \<in> set runs. 0 \<le> length_run r"
      and "0 \<le> pos0"
      and "pos0 + sum_list (map length_run runs) \<le> int (length content)"
  shows "int (length (fst (walk_runs_text_only content runs (text0, pos0)))) =
           int (length text0) +
           sum_list (map length_run (filter (\<lambda>r. attachmentInfo r = None) runs))"
  using assms
proof (induction runs arbitrary: text0 pos0)
  case Nil
  then show ?case by simp
next
  case (Cons r rs)
  have l: "0 \<le> length_run r" using Cons.prems(1) by simp
  have rest: "0 \<le> sum_list (map length_run rs)"
    using Cons.prems(1) by (intro sum_list_nonneg) auto
  have bound: "pos0 + length_run r \<le> int (length content)"
    using Cons.prems(3) rest by simp
  have seg: "length (py_slice content pos0 (pos0 + length_run r)) = nat (length_run r)"
    by (rule py_slice_nonneg(2) [OF Cons.prems(2) l bound])
  have ih: "int (length (fst (walk_runs_text_only content rs (t, pos0 + length_run r)))) =
              int (length t) + sum_list (map length_run (filter (\<lambda>r. attachmentInfo r = None) rs))" for t
    using Cons.prems l by (intro Cons.IH) (auto simp: add.assoc)
  show ?case
    using l seg by (cases "attachmentInfo r") (simp_all add: Let_def ih)
qed

lemma walk_plain_runs:
  assumes "\<forall>r \<in> set runs. 0 \<le> length_run r \<and> attachmentInfo r = None"
      and "0 \<le> pos0"
      and "pos0 + sum_list (map length_run runs) \<le> int (length content)"
  shows "fst (walk_runs content runs (text0, pos0)) =
           text0 @ take (nat (sum_list (map length_run runs))) (drop (nat pos0) content)"
  using assms
proof (induction runs arbitrary: text0 pos0)
  case Nil
  then show ?case by simp
next
  case (Cons r rs)
  have l: "0 \<le> length_run r" and plain: "attachmentInfo r = None"
    using Cons.prems(1) by simp_all
  have rest: "0 \<le> sum_list (map length_run rs)"
    using Cons.prems(1) by (intro sum_list_nonneg) auto
  have bound: "pos0 + length_run r \<le> int (length content)"
    using Cons.prems(3) rest by simp
  have seg: "py_slice content pos0 (pos0 + length_run r) = take (nat (length_run r)) (drop (nat pos0) content)"
    by (rule py_slice_nonneg(1) [OF Cons.prems(2) l bound])
  have ih: "fst (walk_runs content rs (t, pos0 + length_run r)) =
              t @ take (nat (sum_list (map length_run rs))) (drop (nat (pos0 + length_run r)) content)" for t
    using Cons.prems l by (intro Cons.IH) (auto simp: add.assoc)
  have "take (nat (length_run r + sum_list (map length_run rs))) (drop (nat pos0) content) =
        take (nat (length_run r)) (drop (nat pos0) content) @
        take (nat (sum_list (map length_run rs))) (drop (nat (pos0 + length_run r)) content)"
    using l rest Cons.prems(2) by (simp add: nat_add_distrib take_add add.commute)
  then show ?case
    using plain seg by (simp add: Let_def ih)
qed

text \<open>
  C8, as the code has it. For a note whose run lengths are all at least 0 and add up
  to the length of \<open>noteText\<close>, the walk consumes exactly the buffer. The cursor of
  both walks ends at the buffer length. The text that \<open>walk_runs\<close> returns is made,
  run by run, of the token or of the \<open>L\<close> characters that follow position \<open>P\<close> in the
  buffer; the text that \<open>walk_runs_text_only\<close> returns has as many characters as the
  runs without attachment are long; without any attachment run the walk returns the
  buffer itself. Every run starts inside the buffer and ends no later than its end,
  and its slice \<open>noteText[P:P+L]\<close> has exactly \<open>L\<close> characters.
\<close>

theorem C8_no_overrun:
  assumes inv: "sum_list (map length_run (attributeRun n)) = int (length (noteText n))"
      and nonneg: "\<forall>r \<in> set (attributeRun n). 0 \<le> length_run r"
  shows "snd (walk_runs (noteText n) (attributeRun n) ([], 0)) = int (length (noteText n)) \<and>
         snd (walk_runs_text_only (noteText n) (attributeRun n) ([], 0)) = int (length (noteText n)) \<and>
         fst (walk_runs (noteText n) (attributeRun n) ([], 0)) =
           concat (map (\<lambda>i.
             let P = sum_list (map length_run (take i (attributeRun n)));
                 L = length_run (attributeRun n ! i)
             in case attachmentInfo (attributeRun n ! i) of
                  None \<Rightarrow> take (nat L) (drop (nat P) (noteText n))
                | Some ai \<Rightarrow> placeholder_token ai)
             [0..<length (attributeRun n)]) \<and>
         int (length (fst (walk_runs_text_only (noteText n) (attributeRun n) ([], 0)))) =
           sum_list (map length_run (filter (\<lambda>r. attachmentInfo r = None) (attributeRun n))) \<and>
         (list_all (\<lambda>r. attachmentInfo r = None) (attributeRun n) \<longrightarrow>
            fst (walk_runs (noteText n) (attributeRun n) ([], 0)) = noteText n) \<and>
         (\<forall>i < length (attributeRun n).
            let P = sum_list (map length_run (take i (attributeRun n)));
                L = length_run (attributeRun n ! i)
            in 0 \<le> P \<and> P + L \<le> int (length (noteText n)) \<and>
               length (py_slice (noteText n) P (P + L)) = nat L \<and>
               py_slice (noteText n) P (P + L) = take (nat L) (drop (nat P) (noteText n)))"
proof -
  let ?runs = "attributeRun n"
  let ?c = "noteText n"
  have slices: "0 \<le> sum_list (map length_run (take i ?runs)) \<and>
      sum_list (map length_run (take i ?runs)) + length_run (?runs ! i) \<le> int (length ?c) \<and>
      length (py_slice ?c (sum_list (map length_run (take i ?runs)))
                (sum_list (map length_run (take i ?runs)) + length_run (?runs ! i))) = nat (length_run (?runs ! i)) \<and>
      py_slice ?c (sum_list (map length_run (take i ?runs)))
                (sum_list (map length_run (take i ?runs)) + length_run (?runs ! i)) =
        take (nat (length_run (?runs ! i))) (drop (nat (sum_list (map length_run (take i ?runs)))) ?c)"
    if i: "i < length ?runs" for i
  proof -
    have P: "0 \<le> sum_list (map length_run (take i ?runs))"
      and PL: "sum_list (map length_run (take i ?runs)) + length_run (?runs ! i) \<le> int (length ?c)"
      using sum_take_bounds [OF nonneg i] inv by simp_all
    have L: "0 \<le> length_run (?runs ! i)" using nonneg i by simp
    show ?thesis using P PL py_slice_nonneg [OF P L PL] by simp
  qed
  have c1: "snd (walk_runs ?c ?runs ([], 0)) = int (length ?c)"
    by (simp add: walk_runs_closed inv)
  have c2: "snd (walk_runs_text_only ?c ?runs ([], 0)) = int (length ?c)"
    by (simp add: walk_runs_text_only_closed inv)
  have c3: "fst (walk_runs ?c ?runs ([], 0)) =
           concat (map (\<lambda>i.
             let P = sum_list (map length_run (take i ?runs)); L = length_run (?runs ! i)
             in case attachmentInfo (?runs ! i) of
                  None \<Rightarrow> take (nat L) (drop (nat P) ?c)
                | Some ai \<Rightarrow> placeholder_token ai)
             [0..<length ?runs])"
    unfolding walk_runs_closed fst_conv append_Nil
    by (rule arg_cong [where f = concat], rule map_cong)
       (auto simp: Let_def slices split: option.split)
  have c4: "int (length (fst (walk_runs_text_only ?c ?runs ([], 0)))) =
           sum_list (map length_run (filter (\<lambda>r. attachmentInfo r = None) ?runs))"
    using walk_text_only_length [OF nonneg, of 0 ?c "[]"] inv by simp
  have c5: "fst (walk_runs ?c ?runs ([], 0)) = ?c" if "list_all (\<lambda>r. attachmentInfo r = None) ?runs"
  proof -
    from that nonneg have "\<forall>r \<in> set ?runs. 0 \<le> length_run r \<and> attachmentInfo r = None"
      by (simp add: list_all_iff)
    from walk_plain_runs [OF this, of 0 ?c "[]"] inv show ?thesis by simp
  qed
  show ?thesis
    using c1 c2 c3 c4 c5 slices unfolding Let_def by blast
qed

theorem C8_no_overrun_witness:
  "sum_list (map length_run (attributeRun note_before_after)) = int (length (noteText note_before_after)) \<and>
   list_all (\<lambda>r. 0 \<le> length_run r) (attributeRun note_before_after) \<and>
   snd (walk_runs (noteText note_before_after) (attributeRun note_before_after) ([], 0)) = 12 \<and>
   int (length (fst (walk_runs_text_only (noteText note_before_after) (attributeRun note_before_after) ([], 0)))) = 11 \<and>
   length (py_slice (noteText note_before_after) 7 (7 + 5)) = 5"
proof -
  have h1: "sum_list (map length_run (attributeRun note_before_after)) = int (length (noteText note_before_after))"
    by (simp add: note_before_after_def)
  have h2: "\<forall>r \<in> set (attributeRun note_before_after). 0 \<le> length_run r"
    by (simp add: note_before_after_def)
  have i: "2 < length (attributeRun note_before_after)"
    by (simp add: note_before_after_def)
  from C8_no_overrun [OF h1 h2] have
    "snd (walk_runs (noteText note_before_after) (attributeRun note_before_after) ([], 0)) =
       int (length (noteText note_before_after))"
    and "int (length (fst (walk_runs_text_only (noteText note_before_after) (attributeRun note_before_after) ([], 0)))) =
           sum_list (map length_run (filter (\<lambda>r. attachmentInfo r = None) (attributeRun note_before_after)))"
    and "let P = sum_list (map length_run (take 2 (attributeRun note_before_after)));
             L = length_run (attributeRun note_before_after ! 2)
         in 0 \<le> P \<and> P + L \<le> int (length (noteText note_before_after)) \<and>
            length (py_slice (noteText note_before_after) P (P + L)) = nat L \<and>
            py_slice (noteText note_before_after) P (P + L) =
              take (nat L) (drop (nat P) (noteText note_before_after))"
    using i by blast+
  then show ?thesis
    using h1 h2 by (simp add: note_before_after_def Let_def list_all_iff)
qed

text \<open>
  The claim C8 as stated, with the sum of the lengths as its only condition, fails
  for a negative length, which the code takes as the record gives it: the runs 5 and
  -2 over the buffer \<open>abc\<close> add up to 3, yet the first slice \<open>noteText[0:5]\<close> has 3
  characters, not 5, and the cursor stands at 5, past the end, after the first run.
\<close>

theorem C8_counterexample:
  "sum_list (map length_run (attributeRun note_negative)) = int (length (noteText note_negative)) \<and>
   length_run (attributeRun note_negative ! 0) = 5 \<and>
   length (py_slice (noteText note_negative) 0 (0 + 5)) = 3 \<and>
   walk_runs (noteText note_negative) (take 1 (attributeRun note_negative)) ([], 0) = (ascii ''abc'', 5) \<and>
   walk_runs (noteText note_negative) (attributeRun note_negative) ([], 0) = (ascii ''abc'', 3)"
  by (simp add: note_negative_def py_slice_def py_index_def)

section \<open>Properties of decompression and of the sentinels\<close>

text \<open>
  C4, as the code has it. \<open>decompress_gzip_data\<close> first inflates with
  \<open>wbits = 16 + MAX_WBITS = 31\<close> (gzip framing) and returns that output whole; when the
  first attempt raises \<open>zlib.error\<close> it retries with the default \<open>wbits = MAX_WBITS = 15\<close>
  (zlib framing) and returns that output whole. It returns \<open>None\<close> exactly when the blob
  is absent or both attempts raise; whatever it returns is the complete output of one
  of the two attempts; no other \<open>wbits\<close> (raw deflate is a negative one) is ever used.
  A blob that is present and not empty and fails both attempts decodes to the text
  \<open>[Decompression failed]\<close> in both decoders; an absent blob and an empty blob
  decode to \<open>[No data blob]\<close> in both decoders, whatever the inflate would do.
\<close>

theorem C4_decompress_two_attempts:
  "(zl 31 d = ZOk out \<longrightarrow> decompress_gzip_data zl (Some d) = Some out) \<and>
   (zl 31 d = ZError \<longrightarrow> zl 15 d = ZOk out \<longrightarrow> decompress_gzip_data zl (Some d) = Some out) \<and>
   (decompress_gzip_data zl blob = None \<longleftrightarrow>
      blob = None \<or> (\<exists>b. blob = Some b \<and> zl 31 b = ZError \<and> zl 15 b = ZError)) \<and>
   (decompress_gzip_data zl blob = Some out \<longrightarrow>
      (\<exists>b. blob = Some b \<and> (zl 31 b = ZOk out \<or> zl 31 b = ZError \<and> zl 15 b = ZOk out))) \<and>
   (zl 31 = zl' 31 \<and> zl 15 = zl' 15 \<longrightarrow> decompress_gzip_data zl blob = decompress_gzip_data zl' blob) \<and>
   (d \<noteq> [] \<and> zl 31 d = ZError \<and> zl 15 d = ZError \<longrightarrow>
      decode_note_protobuf zl parse (Some d) = ascii ''[Decompression failed]'' \<and>
      decode_note_protobuf_text_only zl parse (Some d) = ascii ''[Decompression failed]'') \<and>
   decode_note_protobuf zl parse None = ascii ''[No data blob]'' \<and>
   decode_note_protobuf zl parse (Some []) = ascii ''[No data blob]'' \<and>
   decode_note_protobuf_text_only zl parse None = ascii ''[No data blob]'' \<and>
   decode_note_protobuf_text_only zl parse (Some []) = ascii ''[No data blob]''"
  by (auto simp: decompress_gzip_data_def MAX_WBITS_def decode_note_protobuf_def
        decode_note_protobuf_text_only_def split: option.splits zresult.splits)

theorem C4_decompress_two_attempts_witness:
  "zl_failing 31 ''x'' = ZError \<and> zl_failing 15 ''x'' = ZError \<and>
   decompress_gzip_data zl_failing (Some ''x'') = None \<and>
   decode_note_protobuf zl_failing (parse_as note_before_after) (Some ''x'') =
     ascii ''[Decompression failed]'' \<and>
   decode_note_protobuf zl_failing (parse_as note_before_after) None = ascii ''[No data blob]'' \<and>
   decode_note_protobuf_text_only zl_stored (parse_as note_before_after) (Some []) = ascii ''[No data blob]'' \<and>
   decompress_gzip_data zl_stored (Some ''x'') = Some ''x''"
proof -
  have f: "zl_failing 31 ''x'' = ZError" "zl_failing 15 ''x'' = ZError"
    by (simp_all add: zl_failing_def)
  have s: "zl_stored 31 ''x'' = ZOk ''x''"
    by (simp add: zl_stored_def)
  show ?thesis
    using f s
      C4_decompress_two_attempts [of zl_failing "''x''" "''x''" "Some ''x''" zl_failing "parse_as note_before_after"]
      C4_decompress_two_attempts [of zl_stored "''x''" "''x''" "Some ''x''" zl_stored "parse_as note_before_after"]
    by simp
qed

text \<open>
  The claim C4 as stated fails in two places. An empty blob, on which both attempts
  raise, decodes to \<open>[No data blob]\<close> (the guard of line 208), not to
  \<open>[Decompression failed]\<close>. And a blob that only a raw-deflate inflate (negative
  \<open>wbits\<close>) can read is a failure: the retry is not a raw-deflate inflate.
\<close>

theorem C4_counterexample:
  "zl_failing 31 [] = ZError \<and> zl_failing 15 [] = ZError \<and>
   decode_note_protobuf zl_failing (parse_as note_before_after) (Some []) = ascii ''[No data blob]'' \<and>
   decode_note_protobuf zl_failing (parse_as note_before_after) (Some []) \<noteq> ascii ''[Decompression failed]'' \<and>
   zl_raw_only (- 15) ''x'' = ZOk ''x'' \<and>
   decompress_gzip_data zl_raw_only (Some ''x'') = None"
  by (simp add: zl_failing_def zl_raw_only_def decode_note_protobuf_def decompress_gzip_data_def
        MAX_WBITS_def)

text \<open>
  C5, as the code has it. A note without attribute runs decodes to exactly its
  \<open>noteText\<close> in \<open>decode_note_protobuf\<close>; \<open>decode_note_protobuf_text_only\<close> returns
  \<open>noteText\<close> with every U+FFFC removed and the surrounding white space stripped, which
  is \<open>noteText\<close> itself when the buffer holds no U+FFFC and neither starts nor ends with
  white space.
\<close>

theorem C5_plain_note:
  assumes "decodes_to zl parse blob n" and "attributeRun n = []"
  shows "decode_note_protobuf zl parse blob = noteText n \<and>
         decode_note_protobuf_text_only zl parse blob = py_strip (py_remove OBJ_REPLACEMENT (noteText n)) \<and>
         (OBJ_REPLACEMENT \<notin> set (noteText n) \<and>
          (noteText n = [] \<or> \<not> py_isspace (hd (noteText n)) \<and> \<not> py_isspace (last (noteText n)))
          \<longrightarrow> decode_note_protobuf_text_only zl parse blob = noteText n)"
proof -
  have keep: "dropWhile py_isspace xs = xs" if "xs = [] \<or> \<not> py_isspace (hd xs)" for xs
    using that by (cases xs) auto
  have strip_id: "py_strip s = s" if "s = [] \<or> \<not> py_isspace (hd s) \<and> \<not> py_isspace (last s)" for s
  proof (cases "s = []")
    case True
    then show ?thesis by (simp add: py_strip_def)
  next
    case False
    with that have h: "\<not> py_isspace (hd s)" and l: "\<not> py_isspace (hd (rev s))"
      by (simp_all add: hd_rev)
    have 1: "dropWhile py_isspace s = s" using h by (simp add: keep)
    have 2: "dropWhile py_isspace (rev s) = rev s" using l by (simp add: keep)
    show ?thesis by (simp add: py_strip_def 1 2)
  qed
  have remove_id: "py_remove c s = s" if "c \<notin> set s" for c s
    using that by (induction s) (auto simp: py_remove_def)
  show ?thesis
    using assms decodes_toD [OF assms(1)] by (auto simp: strip_id remove_id)
qed

theorem C5_plain_note_witness:
  "decodes_to zl_stored (parse_as note_hello) (Some ''x'') note_hello \<and>
   attributeRun note_hello = [] \<and>
   decode_note_protobuf zl_stored (parse_as note_hello) (Some ''x'') = ascii ''Hello World'' \<and>
   decode_note_protobuf_text_only zl_stored (parse_as note_hello) (Some ''x'') = ascii ''Hello World''"
proof -
  have h1: "decodes_to zl_stored (parse_as note_hello) (Some ''x'') note_hello"
    by (rule sample_decodes)
  have h2: "attributeRun note_hello = []"
    by (simp add: note_hello_def)
  show ?thesis
    using h1 h2 C5_plain_note [OF h1 h2]
    by (simp add: note_hello_def OBJ_REPLACEMENT_def py_isspace_def py_strip_def py_remove_def)
qed

text \<open>
  The claim C5 as stated fails in text-only mode: the buffer \<open>" hi "\<close> decodes to
  \<open>"hi"\<close>.
\<close>

theorem C5_counterexample:
  "decodes_to zl_stored (parse_as note_padded) (Some ''x'') note_padded \<and>
   attributeRun note_padded = [] \<and>
   noteText note_padded = ascii '' hi '' \<and>
   decode_note_protobuf_text_only zl_stored (parse_as note_padded) (Some ''x'') = ascii ''hi'' \<and>
   decode_note_protobuf_text_only zl_stored (parse_as note_padded) (Some ''x'') \<noteq> noteText note_padded"
  by (simp add: decodes_to_def decode_note_protobuf_text_only_def decompress_gzip_data_def
        zl_stored_def parse_as_def note_padded_def py_strip_def py_remove_def py_isspace_def
        OBJ_REPLACEMENT_def)

section \<open>Properties of the placeholder substitution\<close>

lemma match_at_len:
  assumes "match_at s = Some (g1, g2, n)"
  shows "0 < n \<and> n \<le> length s"
proof -
  let ?r = "drop 13 s"
  let ?r1 = "dropWhile (\<lambda>c. c \<noteq> 124) ?r"
  let ?r2 = "tl ?r1"
  let ?r3 = "dropWhile (\<lambda>c. c \<noteq> 93) ?r2"
  from assms have pre: "prefix (ascii ''![ATTACHMENT|'') s"
    by (auto simp: match_at_def split: if_splits)
  from assms pre have r1: "?r1 \<noteq> []" and r3: "?r3 \<noteq> []"
    and n: "n = 13 + length (takeWhile (\<lambda>c. c \<noteq> 124) ?r) + 1 + length (takeWhile (\<lambda>c. c \<noteq> 93) ?r2) + 1"
    by (auto simp: match_at_def Let_def split: if_splits)
  from pre have len13: "13 \<le> length s"
    by (auto dest!: prefix_length_le)
  have a: "length ?r = length (takeWhile (\<lambda>c. c \<noteq> 124) ?r) + length ?r1"
    by (metis length_append takeWhile_dropWhile_id)
  have b: "length ?r1 = 1 + length ?r2" using r1 by (cases ?r1) auto
  have c: "length ?r2 = length (takeWhile (\<lambda>c. c \<noteq> 93) ?r2) + length ?r3"
    by (metis length_append takeWhile_dropWhile_id)
  have d: "1 \<le> length ?r3" using r3 by (cases ?r3) auto
  have "length s = 13 + length ?r" using len13 by simp
  with a b c d n show ?thesis by linarith
qed

lemma find_match_bounds:
  "find_match s i = Some m \<Longrightarrow> i \<le> m_start m \<and> m_start m < m_end m \<and> m_end m \<le> i + length s"
proof (induction s arbitrary: i)
  case Nil
  then show ?case by simp
next
  case (Cons c cs)
  show ?case
  proof (cases "match_at (c # cs)")
    case None
    with Cons.prems have "find_match cs (Suc i) = Some m" by simp
    from Cons.IH [OF this] show ?thesis by simp
  next
    case (Some t)
    obtain g1 g2 n where t: "t = (g1, g2, n)" by (cases t)
    from match_at_len [of "c # cs" g1 g2 n] Some t have "0 < n" "n \<le> length (c # cs)" by simp_all
    moreover from Cons.prems Some t have "m = \<lparr>m_start = i, m_end = i + n, group1 = g1, group2 = g2\<rparr>"
      by simp
    ultimately show ?thesis by simp
  qed
qed

lemma regex_search_bounds:
  assumes "regex_search s offset = Some m"
  shows "offset \<le> m_start m \<and> m_start m < m_end m \<and> m_end m \<le> length s"
proof -
  from assms have f: "find_match (drop offset s) offset = Some m" by (simp add: regex_search_def)
  then have "drop offset s \<noteq> []" by (cases "drop offset s") auto
  then have "offset \<le> length s" by simp
  with find_match_bounds [OF f] show ?thesis by simp
qed

lemma process_loop_total:
  "\<exists>out evs'. process_loop lib Ws acc ids dir (n, cache, processed, offset, evs) = Some (out, evs') \<and>
      take offset out = take offset processed \<and>
      (\<forall>m repl cache' ev.
          regex_search processed offset = Some m \<and>
          resolve_placeholder lib (Ws n) acc ids dir cache (group1 m) (group2 m) = (repl, cache', ev)
          \<longrightarrow> take (m_start m + length repl) out = take (m_start m) processed @ repl)"
proof (induction "length processed - offset" arbitrary: n cache processed offset evs rule: less_induct)
  case less
  show ?case
  proof (cases "regex_search processed offset")
    case None
    then show ?thesis by (subst process_loop.simps) simp
  next
    case (Some m)
    obtain repl cache' ev where
      r: "resolve_placeholder lib (Ws n) acc ids dir cache (group1 m) (group2 m) = (repl, cache', ev)"
      by (cases "resolve_placeholder lib (Ws n) acc ids dir cache (group1 m) (group2 m)")
    let ?p = "take (m_start m) processed @ repl @ drop (m_end m) processed"
    let ?o = "m_start m + length repl"
    from regex_search_bounds [OF Some]
    have b: "offset \<le> m_start m" "m_start m < m_end m" "m_end m \<le> length processed" by simp_all
    have "length ?p - ?o < length processed - offset" using b by simp
    from less [OF this, of "Suc n" cache' "evs @ ev"]
    obtain out evs' where
      rec: "process_loop lib Ws acc ids dir (Suc n, cache', ?p, ?o, evs @ ev) = Some (out, evs')"
      and pre: "take ?o out = take ?o ?p"
      by blast
    have step: "process_loop lib Ws acc ids dir (n, cache, processed, offset, evs) = Some (out, evs')"
      by (subst process_loop.simps) (simp add: Some r rec)
    have whole: "take ?o out = take (m_start m) processed @ repl"
      using pre b by simp
    have "take offset out = take offset (take ?o out)"
      using b by (simp add: min_def)
    also have "\<dots> = take offset processed"
      using b by (simp add: whole)
    finally have keep: "take offset out = take offset processed" .
    show ?thesis
      using step keep whole Some r by auto
  qed
qed

lemmas locate_defs =
  find_attachment_source_path_def probe_base_def probe_drawing_def probe_scan_pdf_def
  probe_gallery_def str_or_def pjoin_def path_parts_def NOTES_DATA_PATH_def

lemmas resolve_defs =
  resolve_placeholder_def get_attachment_and_media_details_def media_details_on_error_def
  non_file_def

lemmas sample_defs =
  lib_ascii_def ids_default_def out_dir_def world_empty_def world_media_def world_fallback_def
  media_file_def fallback_jpg_def fallback_png_def fallback_pdf_def always_def first_then_def
  ATTACHMENTS_SUBDIR_def

lemmas name_defs =
  path_name_def path_stem_def path_suffix_def name_suffix_def path_parts_def sanitize_filename_def get_extension_from_uti_def
  UTI_EXTENSIONS_def py_isalnum_def py_split_def py_strip_def py_isspace_def str_int_def
  markup_def py_lower_def img_def pdf_def

lemma search_token_name:
  "regex_search (ascii ''a![ATTACHMENT|X|public.jpeg]b'') 0 =
     Some \<lparr>m_start = 1, m_end = 28, group1 = ascii ''X'', group2 = ascii ''public.jpeg''\<rparr>"
  by (simp add: regex_search_def match_at_def)

lemma resolve_token_name:
  "resolve_placeholder lib_ascii (world_media (ascii ''![ATTACHMENT|Z|t]'') [] True) None ids_default
     (pjoin out_dir ATTACHMENTS_SUBDIR) Map.empty (ascii ''X'') (ascii ''public.jpeg'') =
   (ascii ''[Att source missing: ![ATTACHMENT|Z|t]]'',
    [ascii ''X'' \<mapsto> (None, ascii ''[Att source missing: ![ATTACHMENT|Z|t]]'')],
    [DbLookup (ascii ''X''), LocateSource 5 (ascii ''public.jpeg'')])"
  by (simp add: resolve_defs locate_defs sample_defs Let_def)

text \<open>
  C7. The scan of \<open>process_attachments\<close> ends on every input: from every state of the
  loop, and so from the initial one, it returns a text. The text before \<open>offset\<close> is
  never changed again, and when a token is found at \<open>m.start()\<close> the returned text
  holds, from that offset on, the replacement exactly as it was spliced in: the scan
  resumes after the replacement and does not look into it, whatever it contains.
\<close>

theorem C7_scan_terminates:
  "(\<exists>out evs'. process_loop lib Ws acc ids dir (n, cache, processed, offset, evs) = Some (out, evs') \<and>
      take offset out = take offset processed \<and>
      (\<forall>m repl cache' ev.
          regex_search processed offset = Some m \<and>
          resolve_placeholder lib (Ws n) acc ids dir cache (group1 m) (group2 m) = (repl, cache', ev)
          \<longrightarrow> take (m_start m + length repl) out = take (m_start m) processed @ repl)) \<and>
   (\<exists>out evs'. process_attachments lib Ws acc ids base_path text_placeholders = Some (out, evs'))"
proof
  show "\<exists>out evs'. process_loop lib Ws acc ids dir (n, cache, processed, offset, evs) = Some (out, evs') \<and>
      take offset out = take offset processed \<and>
      (\<forall>m repl cache' ev.
          regex_search processed offset = Some m \<and>
          resolve_placeholder lib (Ws n) acc ids dir cache (group1 m) (group2 m) = (repl, cache', ev)
          \<longrightarrow> take (m_start m + length repl) out = take (m_start m) processed @ repl)"
    by (rule process_loop_total)
  from process_loop_total
    [of lib Ws acc ids "pjoin base_path ATTACHMENTS_SUBDIR" 0 Map.empty text_placeholders 0
        "[MakeDir (pjoin base_path ATTACHMENTS_SUBDIR)]"]
  show "\<exists>out evs'. process_attachments lib Ws acc ids base_path text_placeholders = Some (out, evs')"
    unfolding process_attachments_def Let_def by blast
qed

theorem C7_scan_terminates_witness:
  "\<exists>out evs'.
     process_attachments lib_ascii (always (world_media (ascii ''![ATTACHMENT|Z|t]'') [] True)) None
       ids_default out_dir (ascii ''a![ATTACHMENT|X|public.jpeg]b'') = Some (out, evs') \<and>
     take 40 out = ascii ''a[Att source missing: ![ATTACHMENT|Z|t]]''"
proof -
  let ?Ws = "always (world_media (ascii ''![ATTACHMENT|Z|t]'') [] True)"
  let ?dir = "pjoin out_dir ATTACHMENTS_SUBDIR"
  let ?t = "ascii ''a![ATTACHMENT|X|public.jpeg]b''"
  from C7_scan_terminates [of lib_ascii ?Ws None ids_default ?dir 0 Map.empty ?t 0 "[MakeDir ?dir]"]
  obtain out evs' where
    run: "process_loop lib_ascii ?Ws None ids_default ?dir (0, Map.empty, ?t, 0, [MakeDir ?dir]) = Some (out, evs')"
    and splice: "\<forall>m repl cache' ev.
          regex_search ?t 0 = Some m \<and>
          resolve_placeholder lib_ascii (?Ws 0) None ids_default ?dir Map.empty (group1 m) (group2 m) = (repl, cache', ev)
          \<longrightarrow> take (m_start m + length repl) out = take (m_start m) ?t @ repl"
    by blast
  have w0: "?Ws 0 = world_media (ascii ''![ATTACHMENT|Z|t]'') [] True"
    by (simp add: always_def)
  let ?R = "ascii ''[Att source missing: ![ATTACHMENT|Z|t]]''"
  from splice search_token_name resolve_token_name w0
  have e: "take (1 + length ?R) out = take 1 ?t @ ?R"
    by (metis rmatch.select_convs(1,3,4))
  have l: "1 + length ?R = 40"
    by simp
  have "take 40 out = take 1 ?t @ ?R"
    using e unfolding l .
  then have "take 40 out = ascii ''a[Att source missing: ![ATTACHMENT|Z|t]]''"
    by simp
  with run show ?thesis
    by (simp add: process_attachments_def)
qed

text \<open>
  C9. A placeholder whose declared UTI is in the list \<open>non_file\<close> is replaced by
  \<open>[Unsupported: uti]\<close>; the body of the loop leaves the memo table as it was and
  does nothing to the database or the file system (its list of events is empty). In
  the loop, such a token is spliced out for that marker and the events so far stay
  as they are.
\<close>

theorem C9_non_file_unsupported:
  "(uti_ph \<in> set non_file \<longrightarrow>
      resolve_placeholder lib W acc ids dir cache att_id uti_ph =
        (ascii ''[Unsupported: '' @ uti_ph @ ascii '']'', cache, [])) \<and>
   (regex_search processed offset = Some m \<and> group2 m \<in> set non_file \<longrightarrow>
      process_loop lib Ws acc ids dir (n, cache, processed, offset, evs) =
      process_loop lib Ws acc ids dir
        (Suc n, cache,
         take (m_start m) processed @ (ascii ''[Unsupported: '' @ group2 m @ ascii '']'')
           @ drop (m_end m) processed,
         m_start m + length (ascii ''[Unsupported: '' @ group2 m @ ascii '']''),
         evs))"
proof (intro conjI impI)
  assume "uti_ph \<in> set non_file"
  then show "resolve_placeholder lib W acc ids dir cache att_id uti_ph =
        (ascii ''[Unsupported: '' @ uti_ph @ ascii '']'', cache, [])"
    by (simp add: resolve_placeholder_def)
next
  assume a: "regex_search processed offset = Some m \<and> group2 m \<in> set non_file"
  then have r: "resolve_placeholder lib (Ws n) acc ids dir cache (group1 m) (group2 m) =
        (ascii ''[Unsupported: '' @ group2 m @ ascii '']'', cache, [])"
    by (simp add: resolve_placeholder_def)
  show "process_loop lib Ws acc ids dir (n, cache, processed, offset, evs) =
      process_loop lib Ws acc ids dir
        (Suc n, cache,
         take (m_start m) processed @ (ascii ''[Unsupported: '' @ group2 m @ ascii '']'')
           @ drop (m_end m) processed,
         m_start m + length (ascii ''[Unsupported: '' @ group2 m @ ascii '']''),
         evs)"
    by (subst process_loop.simps) (use a r in simp)
qed

lemma search_link:
  "regex_search (ascii ''see ![ATTACHMENT|L1|com.apple.notes.inlinetextattachment.link].'') 0 =
     Some \<lparr>m_start = 4, m_end = 62, group1 = ascii ''L1'',
           group2 = ascii ''com.apple.notes.inlinetextattachment.link''\<rparr>"
  by (simp add: regex_search_def match_at_def)

lemma search_link_done:
  "regex_search (ascii ''see [Unsupported: com.apple.notes.inlinetextattachment.link].'') 60 = None"
  by (simp add: regex_search_def match_at_def)

theorem C9_non_file_unsupported_witness:
  "ascii ''com.apple.notes.inlinetextattachment.link'' \<in> set non_file \<and>
   resolve_placeholder lib_ascii (world_media (ascii ''f.jpg'') [media_file] True) None ids_default
       (pjoin out_dir ATTACHMENTS_SUBDIR) Map.empty (ascii ''L1'')
       (ascii ''com.apple.notes.inlinetextattachment.link'') =
     (ascii ''[Unsupported: com.apple.notes.inlinetextattachment.link]'', Map.empty, []) \<and>
   process_attachments lib_ascii (always (world_media (ascii ''f.jpg'') [media_file] True)) None ids_default
       out_dir (ascii ''see ![ATTACHMENT|L1|com.apple.notes.inlinetextattachment.link].'') =
     Some (ascii ''see [Unsupported: com.apple.notes.inlinetextattachment.link].'',
           [MakeDir (pjoin out_dir ATTACHMENTS_SUBDIR)])"
proof -
  let ?W = "world_media (ascii ''f.jpg'') [media_file] True"
  let ?dir = "pjoin out_dir ATTACHMENTS_SUBDIR"
  let ?link = "ascii ''com.apple.notes.inlinetextattachment.link''"
  let ?t = "ascii ''see ![ATTACHMENT|L1|com.apple.notes.inlinetextattachment.link].''"
  let ?m = "\<lparr>m_start = 4, m_end = 62, group1 = ascii ''L1'', group2 = ?link\<rparr>"
  have mem: "?link \<in> set non_file"
    by (simp add: non_file_def)
  note c9 = C9_non_file_unsupported
    [of ?link lib_ascii ?W None ids_default ?dir Map.empty "ascii ''L1''" ?t 0 ?m "always ?W" 0
        "[MakeDir ?dir]"]
  from c9 mem have step: "resolve_placeholder lib_ascii ?W None ids_default ?dir Map.empty (ascii ''L1'') ?link =
     (ascii ''[Unsupported: com.apple.notes.inlinetextattachment.link]'', Map.empty, [])"
    by simp
  from c9 mem search_link
  have "process_loop lib_ascii (always ?W) None ids_default ?dir (0, Map.empty, ?t, 0, [MakeDir ?dir]) =
        process_loop lib_ascii (always ?W) None ids_default ?dir
          (Suc 0, Map.empty, ascii ''see [Unsupported: com.apple.notes.inlinetextattachment.link].'', 60,
           [MakeDir ?dir])"
    by simp
  also have "\<dots> = Some (ascii ''see [Unsupported: com.apple.notes.inlinetextattachment.link].'', [MakeDir ?dir])"
    by (subst process_loop.simps) (use search_link_done in simp)
  finally show ?thesis
    using mem step by (simp add: process_attachments_def)
qed

lemma scan_is_img:
  "py_in (ascii ''scan'') (py_lower lib eff_uti) \<Longrightarrow>
   markup lib eff_uti safe_stem dest_fname =
     ascii ''!['' @ map (\<lambda>c. if c = 95 then 32 else c) safe_stem @ ascii '']('' @
     path_str (pjoin [ATTACHMENTS_SUBDIR] dest_fname) @ ascii '')''"
  by (simp add: markup_def img_def Let_def)

lemma split_on_absent: "sep \<notin> set s \<Longrightarrow> split_on sep s = [s]"
  by (induction s) auto

lemma rel_path_plain:
  assumes "47 \<notin> set d" and "d \<noteq> []" and "d \<noteq> ascii ''.''"
  shows "path_str (pjoin [ATTACHMENTS_SUBDIR] d) = ATTACHMENTS_SUBDIR @ ascii ''/'' @ d"
proof -
  have "\<not> prefix (ascii ''/'') d"
    using assms(1,2) by (cases d) auto
  moreover have "\<not> prefix (ascii ''//'') d" and "\<not> prefix (ascii ''///'') d"
    using assms(1,2) by (cases d; auto)+
  ultimately have "pjoin [ATTACHMENTS_SUBDIR] d = [ATTACHMENTS_SUBDIR, d]"
    using assms by (simp add: pjoin_def path_parts_def split_on_absent)
  then show ?thesis
    by (simp add: ATTACHMENTS_SUBDIR_def)
qed

text \<open>
  C10. When an attachment is found and copied and its effective UTI, in lower case,
  contains \<open>scan\<close>, the replacement is the embedded image \<open>![alt](path)\<close> with
  \<open>path\<close> the copy under \<open>_attachments\<close>, not the PDF link: \<open>is_img\<close> is tested first
  and the list \<open>img\<close> holds \<open>scan\<close>. The outcome is recorded in the memo table. The
  path is \<open>_attachments/dest_fname\<close> as soon as the destination name holds no slash.
  The scanned-document UTI \<open>com.apple.paper.doc.scan\<close> is the instance of the witness.
\<close>

theorem C10_scan_is_image:
  assumes "uti_ph \<notin> set non_file"
      and "cache att_id = None"
      and "get_attachment_and_media_details W att_id (ICAttachment ids) (ICMedia ids) =
             (Some k, uti_db, med_pk, med_id, fname, gen)"
      and "k \<noteq> 0"
      and "eff_uti = str_or uti_db uti_ph"
      and "find_attachment_source_path W k eff_uti med_id fname gen (ICAttachment ids) acc = Some src"
      and "safe_stem = sanitize_filename lib (path_stem (path_parts (str_or fname (path_name src))))"
      and "dest_fname = safe_stem @ ascii ''_'' @ str_int k
             @ get_extension_from_uti lib eff_uti (str_or fname (path_name src))"
      and "copy2 W src (pjoin dir dest_fname)"
      and "py_in (ascii ''scan'') (py_lower lib eff_uti)"
      and "repl = ascii ''!['' @ map (\<lambda>c. if c = 95 then 32 else c) safe_stem @ ascii '']('' @
                  path_str (pjoin [ATTACHMENTS_SUBDIR] dest_fname) @ ascii '')''"
    shows "resolve_placeholder lib W acc ids dir cache att_id uti_ph =
             (repl, cache(att_id \<mapsto> (Some dest_fname, repl)),
              [DbLookup att_id, LocateSource k eff_uti, CopyFile src (pjoin dir dest_fname)]) \<and>
           repl \<noteq> ascii ''['' @ map (\<lambda>c. if c = 95 then 32 else c) safe_stem @ ascii '' (PDF)]('' @
                  path_str (pjoin [ATTACHMENTS_SUBDIR] dest_fname) @ ascii '')'' \<and>
           (47 \<notin> set dest_fname \<longrightarrow>
              repl = ascii ''!['' @ map (\<lambda>c. if c = 95 then 32 else c) safe_stem @ ascii '']('' @
                     ATTACHMENTS_SUBDIR @ ascii ''/'' @ dest_fname @ ascii '')'')"
proof -
  have m: "markup lib eff_uti safe_stem dest_fname = repl"
    using scan_is_img [OF assms(10)] assms(11) by simp
  have r: "resolve_placeholder lib W acc ids dir cache att_id uti_ph =
             (repl, cache(att_id \<mapsto> (Some dest_fname, repl)),
              [DbLookup att_id, LocateSource k eff_uti, CopyFile src (pjoin dir dest_fname)])"
    using assms(1-9) m by (simp add: resolve_placeholder_def Let_def)
  have n: "repl \<noteq> ascii ''['' @ map (\<lambda>c. if c = 95 then 32 else c) safe_stem @ ascii '' (PDF)]('' @
                  path_str (pjoin [ATTACHMENTS_SUBDIR] dest_fname) @ ascii '')''"
    using assms(11) by simp
  have ne: "dest_fname \<noteq> []" and nd: "dest_fname \<noteq> ascii ''.''"
    using assms(8) by (auto simp: append_eq_Cons_conv)
  have p: "repl = ascii ''!['' @ map (\<lambda>c. if c = 95 then 32 else c) safe_stem @ ascii '']('' @
                     ATTACHMENTS_SUBDIR @ ascii ''/'' @ dest_fname @ ascii '')''"
    if "47 \<notin> set dest_fname"
    using rel_path_plain [OF that ne nd] assms(11) by simp
  show ?thesis
    using r n p by blast
qed

theorem C10_scan_is_image_witness:
  "py_in (ascii ''scan'') (py_lower lib_ascii (ascii ''com.apple.paper.doc.scan'')) \<and>
   resolve_placeholder lib_ascii (world_fallback (ascii ''com.apple.paper.doc.scan'') [fallback_pdf]) None
       ids_default (pjoin out_dir ATTACHMENTS_SUBDIR) Map.empty (ascii ''S1'')
       (ascii ''com.apple.paper.doc.scan'') =
     (ascii ''![FallbackPDF](_attachments/FallbackPDF_12.pdf)'',
      [ascii ''S1'' \<mapsto> (Some (ascii ''FallbackPDF_12.pdf''),
                           ascii ''![FallbackPDF](_attachments/FallbackPDF_12.pdf)'')],
      [DbLookup (ascii ''S1''), LocateSource 12 (ascii ''com.apple.paper.doc.scan''),
       CopyFile fallback_pdf (pjoin (pjoin out_dir ATTACHMENTS_SUBDIR) (ascii ''FallbackPDF_12.pdf''))])"
proof -
  let ?uti = "ascii ''com.apple.paper.doc.scan''"
  let ?W = "world_fallback ?uti [fallback_pdf]"
  let ?dir = "pjoin out_dir ATTACHMENTS_SUBDIR"
  let ?stem = "ascii ''FallbackPDF''"
  let ?dest = "ascii ''FallbackPDF_12.pdf''"
  let ?repl = "ascii ''![FallbackPDF](_attachments/FallbackPDF_12.pdf)''"
  have h1: "?uti \<notin> set non_file"
    by (simp add: non_file_def)
  have h2: "(Map.empty :: memo) (ascii ''S1'') = None"
    by simp
  have h3: "get_attachment_and_media_details ?W (ascii ''S1'') (ICAttachment ids_default) (ICMedia ids_default) =
              (Some 12, Some ?uti, None, None, None, None)"
    by (simp add: resolve_defs sample_defs)
  have h4: "(12::int) \<noteq> 0"
    by simp
  have h5: "?uti = str_or (Some ?uti) ?uti"
    by (simp add: str_or_def)
  have h6: "find_attachment_source_path ?W 12 ?uti None None None (ICAttachment ids_default) None = Some fallback_pdf"
    by (simp add: locate_defs sample_defs)
  have h7: "?stem = sanitize_filename lib_ascii (path_stem (path_parts (str_or None (path_name fallback_pdf))))"
    by (simp add: name_defs sample_defs str_or_def NOTES_DATA_PATH_def Let_def)
  have h8: "?dest = ?stem @ ascii ''_'' @ str_int 12
              @ get_extension_from_uti lib_ascii ?uti (str_or None (path_name fallback_pdf))"
    by (simp add: name_defs)
  have h9: "copy2 ?W fallback_pdf (pjoin ?dir ?dest)"
    by (simp add: sample_defs)
  have h10: "py_in (ascii ''scan'') (py_lower lib_ascii ?uti)"
    by (simp add: name_defs)
  have h11: "?repl = ascii ''!['' @ map (\<lambda>c. if c = 95 then 32 else c) ?stem @ ascii '']('' @
                  path_str (pjoin [ATTACHMENTS_SUBDIR] ?dest) @ ascii '')''"
    by (simp add: ATTACHMENTS_SUBDIR_def pjoin_def path_parts_def)
  from C10_scan_is_image [OF h1 h2 h3 h4 h5 h6 h7 h8 h9 h10 h11] h10
  show ?thesis by simp
qed

lemma span_until:
  "c \<notin> set xs \<Longrightarrow>
   takeWhile (\<lambda>x. x \<noteq> c) (xs @ c # ys) = xs \<and> dropWhile (\<lambda>x. x \<noteq> c) (xs @ c # ys) = c # ys"
  by (induction xs) auto

lemma match_at_token:
  assumes "a \<noteq> []" and "124 \<notin> set a" and "u \<noteq> []" and "93 \<notin> set u"
  shows "match_at (ascii ''![ATTACHMENT|'' @ a @ 124 # u @ 93 # rest) =
           Some (a, u, 13 + length a + 1 + length u + 1)"
  using assms span_until [of 124 a "u @ 93 # rest"] span_until [of 93 u rest]
  by (simp add: match_at_def Let_def)

lemma find_match_token:
  assumes "a \<noteq> []" and "124 \<notin> set a" and "u \<noteq> []" and "93 \<notin> set u"
  shows "find_match (placeholder_token \<lparr>attachmentIdentifier = a, typeUti = u\<rparr> @ rest) i =
           Some \<lparr>m_start = i,
                 m_end = i + length (placeholder_token \<lparr>attachmentIdentifier = a, typeUti = u\<rparr>),
                 group1 = a, group2 = u\<rparr>"
  using match_at_token [OF assms, of rest]
  by (simp add: placeholder_token_def)

lemma search_end: "regex_search r (length r) = None"
  by (simp add: regex_search_def)

text \<open>
  A text made of the same token twice: the loop resolves the first one in round 0,
  the second one in round 1, and ends.
\<close>

lemma loop_two_tokens:
  assumes tok: "a \<noteq> []" "124 \<notin> set a" "u \<noteq> []" "93 \<notin> set u"
      and t: "t = placeholder_token \<lparr>attachmentIdentifier = a, typeUti = u\<rparr>"
      and r0: "resolve_placeholder lib (Ws 0) acc ids dir cache a u = (repl0, cache1, ev0)"
      and r1: "resolve_placeholder lib (Ws (Suc 0)) acc ids dir cache1 a u = (repl1, cache2, ev1)"
    shows "process_loop lib Ws acc ids dir (0, cache, t @ t, 0, evs) =
           Some (repl0 @ repl1, evs @ ev0 @ ev1)"
proof -
  have s0: "regex_search (t @ t) 0 = Some \<lparr>m_start = 0, m_end = length t, group1 = a, group2 = u\<rparr>"
    using find_match_token [OF tok, of t 0] by (simp add: regex_search_def t)
  have s1: "regex_search (repl0 @ t) (length repl0) =
              Some \<lparr>m_start = length repl0, m_end = length repl0 + length t, group1 = a, group2 = u\<rparr>"
    using find_match_token [OF tok, of "[]" "length repl0"] by (simp add: regex_search_def t)
  have "process_loop lib Ws acc ids dir (0, cache, t @ t, 0, evs) =
        process_loop lib Ws acc ids dir (Suc 0, cache1, repl0 @ t, length repl0, evs @ ev0)"
    by (subst process_loop.simps) (simp add: s0 r0)
  also have "\<dots> = process_loop lib Ws acc ids dir
                      (Suc (Suc 0), cache2, repl0 @ repl1, length (repl0 @ repl1), (evs @ ev0) @ ev1)"
    by (subst process_loop.simps) (simp add: s1 r1)
  also have "\<dots> = Some (repl0 @ repl1, evs @ ev0 @ ev1)"
    by (subst process_loop.simps) (use search_end [of "repl0 @ repl1"] in simp)
  finally show ?thesis .
qed

text \<open>
  C3, as the code has it. Take a placeholder whose identifier has a database row
  and is not yet in the memo table. When its source file is not found, the
  replacement is \<open>[Att source missing: ...]\<close> and it is recorded as a failure; when
  the file is found and copied, the replacement is the markup and it is recorded
  with the destination name. From then on a placeholder with the same identifier and
  a UTI outside \<open>non_file\<close> gets the recorded replacement and does nothing to the
  database or the file system, whatever their state is by then. So a note holding
  the token twice gets the same replacement twice, with the events of the first
  token only, whatever the second round finds. The identifier and the UTI are those
  of a token that the pattern matches: not empty, the identifier without \<open>|\<close> and
  the UTI without \<open>]\<close>.
\<close>

theorem C3_recorded_outcome_reused:
  assumes "att_id \<noteq> []" and "124 \<notin> set att_id" and "uti_ph \<noteq> []" and "93 \<notin> set uti_ph"
      and "uti_ph \<notin> set non_file"
      and "cache att_id = None"
      and "get_attachment_and_media_details (Ws 0) att_id (ICAttachment ids) (ICMedia ids) =
             (Some k, uti_db, med_pk, med_id, fname, gen)"
      and "k \<noteq> 0"
      and "eff_uti = str_or uti_db uti_ph"
      and "dir = pjoin base_path ATTACHMENTS_SUBDIR"
      and "safe_stem = sanitize_filename lib (path_stem (path_parts (str_or fname (path_name src))))"
      and "dest_fname = safe_stem @ ascii ''_'' @ str_int k
             @ get_extension_from_uti lib eff_uti (str_or fname (path_name src))"
      and "find_attachment_source_path (Ws 0) k eff_uti med_id fname gen (ICAttachment ids) acc = None \<and>
           repl = ascii ''[Att source missing: '' @ str_or fname att_id @ ascii '']'' \<and>
           dest = None \<and> ev = [DbLookup att_id, LocateSource k eff_uti]
           \<or>
           find_attachment_source_path (Ws 0) k eff_uti med_id fname gen (ICAttachment ids) acc = Some src \<and>
           copy2 (Ws 0) src (pjoin dir dest_fname) \<and>
           repl = markup lib eff_uti safe_stem dest_fname \<and>
           dest = Some dest_fname \<and>
           ev = [DbLookup att_id, LocateSource k eff_uti, CopyFile src (pjoin dir dest_fname)]"
    shows "resolve_placeholder lib (Ws 0) acc ids dir cache att_id uti_ph =
             (repl, cache(att_id \<mapsto> (dest, repl)), ev) \<and>
           (\<forall>lib' W' acc' ids' dir' cache2 uti'.
              uti' \<notin> set non_file \<and> cache2 att_id = Some (dest, repl) \<longrightarrow>
              resolve_placeholder lib' W' acc' ids' dir' cache2 att_id uti' = (repl, cache2, [])) \<and>
           process_attachments lib Ws acc ids base_path
              (placeholder_token \<lparr>attachmentIdentifier = att_id, typeUti = uti_ph\<rparr> @
               placeholder_token \<lparr>attachmentIdentifier = att_id, typeUti = uti_ph\<rparr>) =
             Some (repl @ repl, MakeDir dir # ev)"
proof -
  have first: "resolve_placeholder lib (Ws 0) acc ids dir c att_id uti_ph =
                 (repl, c(att_id \<mapsto> (dest, repl)), ev)" if "c att_id = None" for c
    using assms(5,7,8,9,11,12,13) that
    by (auto simp: resolve_placeholder_def Let_def)
  have reuse: "resolve_placeholder lib' W' acc' ids' dir' cache2 att_id uti' = (repl, cache2, [])"
    if "uti' \<notin> set non_file" and "cache2 att_id = Some (dest, repl)"
    for lib' W' acc' ids' dir' cache2 uti'
    using that by (simp add: resolve_placeholder_def)
  have r0: "resolve_placeholder lib (Ws 0) acc ids dir Map.empty att_id uti_ph =
              (repl, [att_id \<mapsto> (dest, repl)], ev)"
    by (rule first) simp
  have r1: "resolve_placeholder lib (Ws (Suc 0)) acc ids dir [att_id \<mapsto> (dest, repl)] att_id uti_ph =
              (repl, [att_id \<mapsto> (dest, repl)], [])"
    by (rule reuse [OF assms(5)]) simp
  have "process_loop lib Ws acc ids dir
          (0, Map.empty,
           placeholder_token \<lparr>attachmentIdentifier = att_id, typeUti = uti_ph\<rparr> @
           placeholder_token \<lparr>attachmentIdentifier = att_id, typeUti = uti_ph\<rparr>, 0, [MakeDir dir]) =
        Some (repl @ repl, [MakeDir dir] @ ev @ [])"
    by (rule loop_two_tokens [OF assms(1-4) refl r0 r1])
  then have run: "process_attachments lib Ws acc ids base_path
              (placeholder_token \<lparr>attachmentIdentifier = att_id, typeUti = uti_ph\<rparr> @
               placeholder_token \<lparr>attachmentIdentifier = att_id, typeUti = uti_ph\<rparr>) =
             Some (repl @ repl, MakeDir dir # ev)"
    by (simp add: process_attachments_def Let_def assms(10))
  show ?thesis
    using first [of cache, OF assms(6)] reuse run by blast
qed

lemma details_media:
  "get_attachment_and_media_details (world_media (ascii ''f.jpg'') files ok) (ascii ''X'')
       (ICAttachment ids_default) (ICMedia ids_default) =
     (Some 5, Some (ascii ''public.jpeg''), Some 1, Some (ascii ''M''), Some (ascii ''f.jpg''), None)"
  by (simp add: resolve_defs sample_defs)

theorem C3_recorded_outcome_reused_witness:
  "find_attachment_source_path (world_media (ascii ''f.jpg'') [] True) 5 (ascii ''public.jpeg'')
       (Some (ascii ''M'')) (Some (ascii ''f.jpg'')) None (ICAttachment ids_default) None = None \<and>
   find_attachment_source_path (world_media (ascii ''f.jpg'') [media_file] True) 5 (ascii ''public.jpeg'')
       (Some (ascii ''M'')) (Some (ascii ''f.jpg'')) None (ICAttachment ids_default) None = Some media_file \<and>
   process_attachments lib_ascii
       (first_then (world_media (ascii ''f.jpg'') [] True) (world_media (ascii ''f.jpg'') [media_file] True))
       None ids_default out_dir (ascii ''![ATTACHMENT|X|public.jpeg]![ATTACHMENT|X|public.jpeg]'') =
     Some (ascii ''[Att source missing: f.jpg][Att source missing: f.jpg]'',
           [MakeDir (pjoin out_dir ATTACHMENTS_SUBDIR), DbLookup (ascii ''X''),
            LocateSource 5 (ascii ''public.jpeg'')]) \<and>
   process_attachments lib_ascii
       (first_then (world_media (ascii ''f.jpg'') [media_file] True) (world_media (ascii ''f.jpg'') [] True))
       None ids_default out_dir (ascii ''![ATTACHMENT|X|public.jpeg]![ATTACHMENT|X|public.jpeg]'') =
     Some (ascii ''![f](_attachments/f_5.jpg)![f](_attachments/f_5.jpg)'',
           [MakeDir (pjoin out_dir ATTACHMENTS_SUBDIR), DbLookup (ascii ''X''),
            LocateSource 5 (ascii ''public.jpeg''),
            CopyFile media_file (pjoin (pjoin out_dir ATTACHMENTS_SUBDIR) (ascii ''f_5.jpg''))])"
proof -
  let ?Wm = "world_media (ascii ''f.jpg'') [] True"
  let ?Wf = "world_media (ascii ''f.jpg'') [media_file] True"
  let ?dir = "pjoin out_dir ATTACHMENTS_SUBDIR"
  let ?jpeg = "ascii ''public.jpeg''"
  let ?missing = "ascii ''[Att source missing: f.jpg]''"
  let ?image = "ascii ''![f](_attachments/f_5.jpg)''"
  have t1: "ascii ''X'' \<noteq> []" and t2: "124 \<notin> set (ascii ''X'')"
    and t3: "?jpeg \<noteq> []" and t4: "93 \<notin> set ?jpeg"
    by simp_all
  have h5: "?jpeg \<notin> set non_file"
    by (simp add: non_file_def)
  have h6: "(Map.empty :: memo) (ascii ''X'') = None"
    by simp
  have h7a: "get_attachment_and_media_details (first_then ?Wm ?Wf 0) (ascii ''X'')
               (ICAttachment ids_default) (ICMedia ids_default) =
             (Some 5, Some ?jpeg, Some 1, Some (ascii ''M''), Some (ascii ''f.jpg''), None)"
    and h7b: "get_attachment_and_media_details (first_then ?Wf ?Wm 0) (ascii ''X'')
               (ICAttachment ids_default) (ICMedia ids_default) =
             (Some 5, Some ?jpeg, Some 1, Some (ascii ''M''), Some (ascii ''f.jpg''), None)"
    by (use details_media in \<open>simp_all add: first_then_def\<close>)
  have h8: "(5::int) \<noteq> 0"
    by simp
  have h9: "?jpeg = str_or (Some ?jpeg) ?jpeg"
    by (simp add: str_or_def)
  have h10: "?dir = pjoin out_dir ATTACHMENTS_SUBDIR"
    by simp
  have h11: "ascii ''f'' = sanitize_filename lib_ascii
               (path_stem (path_parts (str_or (Some (ascii ''f.jpg'')) (path_name media_file))))"
    by (simp add: name_defs sample_defs str_or_def Let_def)
  have h12: "ascii ''f_5.jpg'' = ascii ''f'' @ ascii ''_'' @ str_int 5
               @ get_extension_from_uti lib_ascii ?jpeg (str_or (Some (ascii ''f.jpg'')) (path_name media_file))"
    by (simp add: name_defs)
  have missing: "find_attachment_source_path ?Wm 5 ?jpeg (Some (ascii ''M'')) (Some (ascii ''f.jpg'')) None
                   (ICAttachment ids_default) None = None"
    by (simp add: locate_defs sample_defs)
  have found: "find_attachment_source_path ?Wf 5 ?jpeg (Some (ascii ''M'')) (Some (ascii ''f.jpg'')) None
                 (ICAttachment ids_default) None = Some media_file"
    by (simp add: locate_defs sample_defs)
  have mk: "markup lib_ascii ?jpeg (ascii ''f'') (ascii ''f_5.jpg'') = ?image"
    by (simp add: name_defs sample_defs pjoin_def)
  have h13a: "find_attachment_source_path (first_then ?Wm ?Wf 0) 5 ?jpeg (Some (ascii ''M''))
                (Some (ascii ''f.jpg'')) None (ICAttachment ids_default) None = None \<and>
              ?missing = ascii ''[Att source missing: '' @ str_or (Some (ascii ''f.jpg'')) (ascii ''X'') @ ascii '']'' \<and>
              (None :: pystr option) = None \<and>
              [DbLookup (ascii ''X''), LocateSource 5 ?jpeg] = [DbLookup (ascii ''X''), LocateSource 5 ?jpeg]
              \<or>
              find_attachment_source_path (first_then ?Wm ?Wf 0) 5 ?jpeg (Some (ascii ''M''))
                (Some (ascii ''f.jpg'')) None (ICAttachment ids_default) None = Some media_file \<and>
              copy2 (first_then ?Wm ?Wf 0) media_file (pjoin ?dir (ascii ''f_5.jpg'')) \<and>
              ?missing = markup lib_ascii ?jpeg (ascii ''f'') (ascii ''f_5.jpg'') \<and>
              None = Some (ascii ''f_5.jpg'') \<and>
              [DbLookup (ascii ''X''), LocateSource 5 ?jpeg] =
                [DbLookup (ascii ''X''), LocateSource 5 ?jpeg,
                 CopyFile media_file (pjoin ?dir (ascii ''f_5.jpg''))]"
    using missing by (simp add: first_then_def str_or_def)
  have h13b: "find_attachment_source_path (first_then ?Wf ?Wm 0) 5 ?jpeg (Some (ascii ''M''))
                (Some (ascii ''f.jpg'')) None (ICAttachment ids_default) None = None \<and>
              ?image = ascii ''[Att source missing: '' @ str_or (Some (ascii ''f.jpg'')) (ascii ''X'') @ ascii '']'' \<and>
              Some (ascii ''f_5.jpg'') = None \<and>
              [DbLookup (ascii ''X''), LocateSource 5 ?jpeg,
               CopyFile media_file (pjoin ?dir (ascii ''f_5.jpg''))] = [DbLookup (ascii ''X''), LocateSource 5 ?jpeg]
              \<or>
              find_attachment_source_path (first_then ?Wf ?Wm 0) 5 ?jpeg (Some (ascii ''M''))
                (Some (ascii ''f.jpg'')) None (ICAttachment ids_default) None = Some media_file \<and>
              copy2 (first_then ?Wf ?Wm 0) media_file (pjoin ?dir (ascii ''f_5.jpg'')) \<and>
              ?image = markup lib_ascii ?jpeg (ascii ''f'') (ascii ''f_5.jpg'') \<and>
              Some (ascii ''f_5.jpg'') = Some (ascii ''f_5.jpg'') \<and>
              [DbLookup (ascii ''X''), LocateSource 5 ?jpeg,
               CopyFile media_file (pjoin ?dir (ascii ''f_5.jpg''))] =
                [DbLookup (ascii ''X''), LocateSource 5 ?jpeg,
                 CopyFile media_file (pjoin ?dir (ascii ''f_5.jpg''))]"
    using found mk by (simp add: first_then_def world_media_def)
  note a = C3_recorded_outcome_reused
    [where cache = Map.empty and att_id = "ascii ''X''" and Ws = "first_then ?Wm ?Wf",
     OF t1 t2 t3 t4 h5 h6 h7a h8 h9 h10 h11 h12 h13a]
  note b = C3_recorded_outcome_reused
    [where cache = Map.empty and att_id = "ascii ''X''" and Ws = "first_then ?Wf ?Wm",
     OF t1 t2 t3 t4 h5 h6 h7b h8 h9 h10 h11 h12 h13b]
  from a b missing found show ?thesis
    by (simp add: placeholder_token_def)
qed

lemma resolve_db_missing:
  "resolve_placeholder lib_ascii world_empty None ids_default (pjoin out_dir ATTACHMENTS_SUBDIR) Map.empty
       (ascii ''X'') (ascii ''public.jpeg'') =
     (ascii ''[Att DB missing: X]'', Map.empty, [DbLookup (ascii ''X'')])"
  by (simp add: resolve_defs sample_defs)

text \<open>The branch of a found source file (lines 270-280), by the outcome of the copy.\<close>

lemma resolve_found:
  assumes "uti_ph \<notin> set non_file"
      and "cache att_id = None"
      and "get_attachment_and_media_details W att_id (ICAttachment ids) (ICMedia ids) =
             (Some k, uti_db, med_pk, med_id, fname, gen)"
      and "k \<noteq> 0"
      and "eff_uti = str_or uti_db uti_ph"
      and "find_attachment_source_path W k eff_uti med_id fname gen (ICAttachment ids) acc = Some src"
      and "safe_stem = sanitize_filename lib (path_stem (path_parts (str_or fname (path_name src))))"
      and "dest_fname = safe_stem @ ascii ''_'' @ str_int k
             @ get_extension_from_uti lib eff_uti (str_or fname (path_name src))"
    shows "resolve_placeholder lib W acc ids dir cache att_id uti_ph =
             (if copy2 W src (pjoin dir dest_fname)
              then (markup lib eff_uti safe_stem dest_fname,
                    cache(att_id \<mapsto> (Some dest_fname, markup lib eff_uti safe_stem dest_fname)),
                    [DbLookup att_id, LocateSource k eff_uti, CopyFile src (pjoin dir dest_fname)])
              else (ascii ''[Error copy '' @ str_or fname (path_name src) @ ascii '']'', cache,
                    [DbLookup att_id, LocateSource k eff_uti, CopyFile src (pjoin dir dest_fname)]))"
  using assms by (simp add: resolve_placeholder_def Let_def)

lemma sample_found:
  "find_attachment_source_path (world_media (ascii ''f.jpg'') [media_file] ok) 5 (ascii ''public.jpeg'')
       (Some (ascii ''M'')) (Some (ascii ''f.jpg'')) None (ICAttachment ids_default) None = Some media_file"
  by (simp add: locate_defs sample_defs)

lemma sample_stem:
  "ascii ''f'' = sanitize_filename lib_ascii
     (path_stem (path_parts (str_or (Some (ascii ''f.jpg'')) (path_name media_file))))"
  by (simp add: name_defs sample_defs str_or_def Let_def)

lemma sample_dest:
  "ascii ''f_5.jpg'' = ascii ''f'' @ ascii ''_'' @ str_int 5
     @ get_extension_from_uti lib_ascii (ascii ''public.jpeg'')
         (str_or (Some (ascii ''f.jpg'')) (path_name media_file))"
  by (simp add: name_defs)

lemma sample_markup:
  "markup lib_ascii (ascii ''public.jpeg'') (ascii ''f'') (ascii ''f_5.jpg'') =
     ascii ''![f](_attachments/f_5.jpg)''"
  by (simp add: name_defs sample_defs pjoin_def)

lemma resolve_sample_found:
  "resolve_placeholder lib_ascii (world_media (ascii ''f.jpg'') [media_file] ok) None ids_default
       (pjoin out_dir ATTACHMENTS_SUBDIR) Map.empty (ascii ''X'') (ascii ''public.jpeg'') =
     (if ok
      then (ascii ''![f](_attachments/f_5.jpg)'',
            [ascii ''X'' \<mapsto> (Some (ascii ''f_5.jpg''), ascii ''![f](_attachments/f_5.jpg)'')],
            [DbLookup (ascii ''X''), LocateSource 5 (ascii ''public.jpeg''),
             CopyFile media_file (pjoin (pjoin out_dir ATTACHMENTS_SUBDIR) (ascii ''f_5.jpg''))])
      else (ascii ''[Error copy f.jpg]'', Map.empty,
            [DbLookup (ascii ''X''), LocateSource 5 (ascii ''public.jpeg''),
             CopyFile media_file (pjoin (pjoin out_dir ATTACHMENTS_SUBDIR) (ascii ''f_5.jpg''))]))"
proof -
  let ?W = "world_media (ascii ''f.jpg'') [media_file] ok"
  let ?jpeg = "ascii ''public.jpeg''"
  have h1: "?jpeg \<notin> set non_file"
    by (simp add: non_file_def)
  have h2: "(Map.empty :: memo) (ascii ''X'') = None"
    by simp
  have h4: "(5::int) \<noteq> 0"
    by simp
  have h5: "?jpeg = str_or (Some ?jpeg) ?jpeg"
    by (simp add: str_or_def)
  have c: "copy2 ?W media_file p = ok" for p
    by (simp add: world_media_def)
  have e: "str_or (Some (ascii ''f.jpg'')) (path_name media_file) = ascii ''f.jpg''"
    by (simp add: str_or_def)
  from resolve_found
    [where cache = Map.empty and att_id = "ascii ''X''" and W = ?W and lib = lib_ascii
       and dir = "pjoin out_dir ATTACHMENTS_SUBDIR",
     OF h1 h2 details_media h4 h5 sample_found sample_stem sample_dest]
  show ?thesis
    by (simp only: c e sample_markup) simp
qed

lemma resolve_copy_error:
  "resolve_placeholder lib_ascii (world_media (ascii ''f.jpg'') [media_file] False) None ids_default
       (pjoin out_dir ATTACHMENTS_SUBDIR) Map.empty (ascii ''X'') (ascii ''public.jpeg'') =
     (ascii ''[Error copy f.jpg]'', Map.empty,
      [DbLookup (ascii ''X''), LocateSource 5 (ascii ''public.jpeg''),
       CopyFile media_file (pjoin (pjoin out_dir ATTACHMENTS_SUBDIR) (ascii ''f_5.jpg''))])"
  by (simp only: resolve_sample_found if_False)

lemma resolve_copy_ok:
  "resolve_placeholder lib_ascii (world_media (ascii ''f.jpg'') [media_file] True) None ids_default
       (pjoin out_dir ATTACHMENTS_SUBDIR) Map.empty (ascii ''X'') (ascii ''public.jpeg'') =
     (ascii ''![f](_attachments/f_5.jpg)'',
      [ascii ''X'' \<mapsto> (Some (ascii ''f_5.jpg''), ascii ''![f](_attachments/f_5.jpg)'')],
      [DbLookup (ascii ''X''), LocateSource 5 (ascii ''public.jpeg''),
       CopyFile media_file (pjoin (pjoin out_dir ATTACHMENTS_SUBDIR) (ascii ''f_5.jpg''))])"
  by (simp only: resolve_sample_found if_True)

text \<open>
  The claim C3 as stated fails in three places. An identifier without a database
  row is not recorded: its second placeholder looks the database up again. A failed
  copy is not recorded either: the second placeholder searches and copies again, and
  gets another outcome when the copy then succeeds. And a recorded identifier that
  comes back with a UTI of the list \<open>non_file\<close> does not get the recorded outcome but
  the marker \<open>[Unsupported: ...]\<close>, since line 262 is tested before the memo table.
\<close>

theorem C3_counterexample:
  "process_attachments lib_ascii (always world_empty) None ids_default out_dir
       (ascii ''![ATTACHMENT|X|public.jpeg]![ATTACHMENT|X|public.jpeg]'') =
     Some (ascii ''[Att DB missing: X][Att DB missing: X]'',
           [MakeDir (pjoin out_dir ATTACHMENTS_SUBDIR), DbLookup (ascii ''X''), DbLookup (ascii ''X'')]) \<and>
   process_attachments lib_ascii
       (first_then (world_media (ascii ''f.jpg'') [media_file] False)
                   (world_media (ascii ''f.jpg'') [media_file] True))
       None ids_default out_dir (ascii ''![ATTACHMENT|X|public.jpeg]![ATTACHMENT|X|public.jpeg]'') =
     Some (ascii ''[Error copy f.jpg]![f](_attachments/f_5.jpg)'',
           [MakeDir (pjoin out_dir ATTACHMENTS_SUBDIR),
            DbLookup (ascii ''X''), LocateSource 5 (ascii ''public.jpeg''),
            CopyFile media_file (pjoin (pjoin out_dir ATTACHMENTS_SUBDIR) (ascii ''f_5.jpg'')),
            DbLookup (ascii ''X''), LocateSource 5 (ascii ''public.jpeg''),
            CopyFile media_file (pjoin (pjoin out_dir ATTACHMENTS_SUBDIR) (ascii ''f_5.jpg''))]) \<and>
   resolve_placeholder lib_ascii (world_media (ascii ''f.jpg'') [] True) None ids_default
       (pjoin out_dir ATTACHMENTS_SUBDIR)
       [ascii ''X'' \<mapsto> (None, ascii ''[Att source missing: f.jpg]'')] (ascii ''X'') (ascii ''public.url'') =
     (ascii ''[Unsupported: public.url]'',
      [ascii ''X'' \<mapsto> (None, ascii ''[Att source missing: f.jpg]'')], [])"
proof -
  let ?dir = "pjoin out_dir ATTACHMENTS_SUBDIR"
  let ?Wf = "world_media (ascii ''f.jpg'') [media_file] False"
  let ?Wt = "world_media (ascii ''f.jpg'') [media_file] True"
  have t: "ascii ''X'' \<noteq> []" "124 \<notin> set (ascii ''X'')"
    "ascii ''public.jpeg'' \<noteq> []" "93 \<notin> set (ascii ''public.jpeg'')"
    by simp_all
  have a: "always world_empty 0 = world_empty" "always world_empty (Suc 0) = world_empty"
    by (simp_all add: always_def)
  have b: "first_then ?Wf ?Wt 0 = ?Wf" "first_then ?Wf ?Wt (Suc 0) = ?Wt"
    by (simp_all add: first_then_def)
  have a0: "resolve_placeholder lib_ascii (always world_empty 0) None ids_default ?dir Map.empty
              (ascii ''X'') (ascii ''public.jpeg'') =
            (ascii ''[Att DB missing: X]'', Map.empty, [DbLookup (ascii ''X'')])"
    by (simp only: a resolve_db_missing)
  have a1: "resolve_placeholder lib_ascii (always world_empty (Suc 0)) None ids_default ?dir Map.empty
              (ascii ''X'') (ascii ''public.jpeg'') =
            (ascii ''[Att DB missing: X]'', Map.empty, [DbLookup (ascii ''X'')])"
    by (simp only: a resolve_db_missing)
  have b0: "resolve_placeholder lib_ascii (first_then ?Wf ?Wt 0) None ids_default ?dir Map.empty
              (ascii ''X'') (ascii ''public.jpeg'') =
            (ascii ''[Error copy f.jpg]'', Map.empty,
             [DbLookup (ascii ''X''), LocateSource 5 (ascii ''public.jpeg''),
              CopyFile media_file (pjoin ?dir (ascii ''f_5.jpg''))])"
    by (simp only: b resolve_copy_error)
  have b1: "resolve_placeholder lib_ascii (first_then ?Wf ?Wt (Suc 0)) None ids_default ?dir Map.empty
              (ascii ''X'') (ascii ''public.jpeg'') =
            (ascii ''![f](_attachments/f_5.jpg)'',
             [ascii ''X'' \<mapsto> (Some (ascii ''f_5.jpg''), ascii ''![f](_attachments/f_5.jpg)'')],
             [DbLookup (ascii ''X''), LocateSource 5 (ascii ''public.jpeg''),
              CopyFile media_file (pjoin ?dir (ascii ''f_5.jpg''))])"
    by (simp only: b resolve_copy_ok)
  have c: "resolve_placeholder lib_ascii (world_media (ascii ''f.jpg'') [] True) None ids_default ?dir
       [ascii ''X'' \<mapsto> (None, ascii ''[Att source missing: f.jpg]'')] (ascii ''X'') (ascii ''public.url'') =
     (ascii ''[Unsupported: public.url]'',
      [ascii ''X'' \<mapsto> (None, ascii ''[Att source missing: f.jpg]'')], [])"
    by (simp add: resolve_placeholder_def non_file_def)
  note loop_two_tokens [OF t refl a0 a1, of "[MakeDir ?dir]"]
       loop_two_tokens [OF t refl b0 b1, of "[MakeDir ?dir]"]
  then show ?thesis
    using c by (simp add: process_attachments_def Let_def placeholder_token_def)
qed

section \<open>Paths and numbers from the database\<close>

text \<open>
  A file name with a slash gives several parts, and its stem is the stem of the last
  one; a width and a height stored as floats are formatted as floats in the name of
  the gallery preview.
\<close>

lemma path_of_nested_name:
  "pjoin [ascii ''Media''] (ascii ''sub/pic.jpg'') = [ascii ''Media'', ascii ''sub'', ascii ''pic.jpg''] \<and>
   path_stem (path_parts (ascii ''sub/pic.jpg'')) = ascii ''pic'' \<and>
   path_suffix (path_parts (ascii ''sub/pic.jpg'')) = ascii ''.jpg'' \<and>
   pjoin [ascii ''Media''] (ascii ''/etc/passwd'') = [ascii ''/'', ascii ''etc'', ascii ''passwd''] \<and>
   path_str (pjoin [ascii ''Media''] (ascii ''/etc/passwd'')) = ascii ''/etc/passwd''"
  by (simp add: name_defs pjoin_def)

lemma gallery_preview_of_floats:
  "probe_gallery world_gallery 12 (ascii ''com.apple.notes.gallery'') 7 NOTES_DATA_PATH =
     Some (NOTES_DATA_PATH @ [ascii ''Previews'', ascii ''U1-1-640.0x480.0-0.jpeg''])"
  by (simp add: probe_gallery_def world_gallery_def str_or_def pjoin_def path_parts_def
        NOTES_DATA_PATH_def)

section \<open>The fallback image of a drawing\<close>

text \<open>
  C2 at a failing input. A drawing whose fallback image is stored as
  \<open>FallbackImages/U1.jpg\<close> is not found, although that file exists: the path with
  \<open>jpg\<close> is assigned and overwritten, and only the path with \<open>png\<close> is tested. With
  both files present the locator returns the \<open>png\<close>.
\<close>

theorem C2_fallback_jpg_not_probed:
  "path_exists (world_fallback (ascii ''com.apple.drawing'') [fallback_jpg]) fallback_jpg \<and>
   find_attachment_source_path (world_fallback (ascii ''com.apple.drawing'') [fallback_jpg]) 12
       (ascii ''com.apple.drawing'') None None None 7 None = None \<and>
   find_attachment_source_path (world_fallback (ascii ''com.apple.drawing'') [fallback_jpg, fallback_png]) 12
       (ascii ''com.apple.drawing'') None None None 7 None = Some fallback_png"
  by (simp add: locate_defs sample_defs)

section \<open>The title\<close>

text \<open>The four sources of the title, in the order in which the code tries them.\<close>

lemma export_note_to_markdown_title_cases:
  "(title = Some t \<and> t \<noteq> [] \<longrightarrow> export_note_to_markdown_title pk title summary content_ph = t) \<and>
   ((title = None \<or> title = Some []) \<and> py_strip content_ph \<noteq> [] \<and>
    \<not> prefix (ascii ''![ATTACHMENT'') (py_strip (takeWhile (\<lambda>c. c \<noteq> 10) (py_strip content_ph))) \<and>
    take 80 (py_strip (takeWhile (\<lambda>c. c \<noteq> 10) (py_strip content_ph))) \<noteq> []
    \<longrightarrow> export_note_to_markdown_title pk title summary content_ph =
          take 80 (py_strip (takeWhile (\<lambda>c. c \<noteq> 10) (py_strip content_ph)))) \<and>
   ((title = None \<or> title = Some []) \<and>
    (py_strip content_ph = [] \<or>
     prefix (ascii ''![ATTACHMENT'') (py_strip (takeWhile (\<lambda>c. c \<noteq> 10) (py_strip content_ph)))) \<and>
    summary = Some s \<and> s \<noteq> []
    \<longrightarrow> export_note_to_markdown_title pk title summary content_ph = py_strip (take 80 s)) \<and>
   ((title = None \<or> title = Some []) \<and>
    (py_strip content_ph = [] \<or>
     prefix (ascii ''![ATTACHMENT'') (py_strip (takeWhile (\<lambda>c. c \<noteq> 10) (py_strip content_ph)))) \<and>
    (summary = None \<or> summary = Some [])
    \<longrightarrow> export_note_to_markdown_title pk title summary content_ph = ascii ''Untitled_Note_'' @ str_int pk)"
  by (auto simp: export_note_to_markdown_title_def Let_def)

text \<open>
  C6 at a failing input. A note without title whose text starts with a placeholder
  line followed by the line \<open>Hello\<close> is not titled \<open>Hello\<close>: only the first line is
  looked at, and the title falls back to the snippet, or to \<open>Untitled_Note_7\<close> without
  one. The note \<open>Hello World\<close> with one run of length 11 gets the title \<open>Hello World\<close>.
\<close>

theorem C6_title_first_line_only:
  "export_note_to_markdown_title 7 None None
       (ascii ''![ATTACHMENT|A1|public.jpeg]'' @ [10] @ ascii ''Hello'') = ascii ''Untitled_Note_7'' \<and>
   export_note_to_markdown_title 7 None (Some (ascii ''A snippet''))
       (ascii ''![ATTACHMENT|A1|public.jpeg]'' @ [10] @ ascii ''Hello'') = ascii ''A snippet'' \<and>
   export_note_to_markdown_title 7 None None
       (decode_note_protobuf zl_stored (parse_as note_hello_run) (Some ''x'')) = ascii ''Hello World''"
  by (simp add: export_note_to_markdown_title_def py_strip_def py_isspace_def str_int_def
        decode_note_protobuf_def decompress_gzip_data_def zl_stored_def parse_as_def
        note_hello_run_def py_slice_def py_index_def)

end
